theory Spec2Isabelle
  imports Complex_Main
begin

section \<open>The JavaScript primitives the dashboard uses\<close>

text \<open>
  The dashboard (\<^verbatim>\<open>src/pages/Index.tsx\<close>) and its API client
  (\<^verbatim>\<open>services/api.ts\<close>) lean on a few operations of the language and of
  \<^verbatim>\<open>date-fns\<close>: \<^verbatim>\<open>String.prototype.split\<close>, \<^verbatim>\<open>parseFloat\<close>,
  \<^verbatim>\<open>Number\<close>, the conversion of a number to a string inside a template literal,
  the operator \<^verbatim>\<open>||\<close>, \<^verbatim>\<open>toLowerCase\<close>, \<^verbatim>\<open>new Date(string)\<close> and
  \<^verbatim>\<open>format(date, 'yyyy-MM-dd')\<close>. They are modelled here on the values the
  dashboard feeds them.

  A number that comes out of a travel-distance bucket is \<open>NaN\<close> or a non-negative
  integer. The integers are exact below \<open>2 ^ 53\<close>, as doubles are; the theorems that
  quantify over numbers carry that bound.
\<close>

datatype jsnum = NaN | Num nat

text \<open>\<^verbatim>\<open>s.split(sep)\<close> for a one-character separator: every piece, empty ones too.\<close>

fun split :: "char \<Rightarrow> string \<Rightarrow> string list" where
  "split sep [] = [[]]"
| "split sep (c # cs) =
     (if c = sep then [] # split sep cs
      else (case split sep cs of
              [] \<Rightarrow> [[c]]
            | p # ps \<Rightarrow> (c # p) # ps))"

text \<open>
  Array destructuring \<^verbatim>\<open>const [a, b] = parts\<close> reads an index that may be out of
  range; JavaScript gives \<^verbatim>\<open>undefined\<close> there, the model \<open>None\<close>.
\<close>

definition nth_opt :: "'a list \<Rightarrow> nat \<Rightarrow> 'a option" where
  "nth_opt xs i = (if i < length xs then Some (xs ! i) else None)"

definition is_digit :: "char \<Rightarrow> bool" where
  "is_digit c = (c \<in> set ''0123456789'')"

text \<open>
  The value of a decimal digit: its position in \<^verbatim>\<open>0123456789\<close>. The functions
  below apply it to digits only.
\<close>

definition digit_val :: "char \<Rightarrow> nat" where
  "digit_val c = length (takeWhile (\<lambda>d. d \<noteq> c) ''0123456789'')"

definition digits_val :: "string \<Rightarrow> nat" where
  "digits_val ds = foldl (\<lambda>n c. 10 * n + digit_val c) 0 ds"

text \<open>
  \<^verbatim>\<open>parseFloat(s)\<close> on a piece of a bucket id: the value of the leading run of
  decimal digits, \<open>NaN\<close> when there is none; \<^verbatim>\<open>parseFloat(undefined)\<close> is
  \<open>NaN\<close>. The pieces of a bucket id hold no sign (the split removed every
  \<^verbatim>\<open>-\<close>); leading white space, a decimal point, an exponent and
  \<^verbatim>\<open>Infinity\<close>, which \<^verbatim>\<open>parseFloat\<close> also reads, occur in no bucket id of
  the filter panel and are outside the model.
\<close>

definition parseFloat :: "string option \<Rightarrow> jsnum" where
  "parseFloat s =
     (case s of
        None \<Rightarrow> NaN
      | Some str \<Rightarrow>
          (let ds = takeWhile is_digit str
           in if ds = [] then NaN else Num (digits_val ds)))"

text \<open>
  \<^verbatim>\<open>Number(s)\<close>, used by \<^verbatim>\<open>split('-').map(Number)\<close>: unlike
  \<^verbatim>\<open>parseFloat\<close> it reads the whole string, the empty string is \<open>0\<close>, and any
  character that is not a digit makes the result \<open>NaN\<close> (white space, hexadecimal,
  fractions and exponents are outside the model, as above).
\<close>

definition Number :: "string \<Rightarrow> jsnum" where
  "Number s = (if list_all is_digit s then Num (digits_val s) else NaN)"

text \<open>The decimal digits of a number, as a template literal prints an integer.\<close>

definition digit_char :: "nat \<Rightarrow> char" where
  "digit_char d = ''0123456789'' ! d"

fun number_toString :: "nat \<Rightarrow> string" where
  "number_toString n =
     (if n < 10 then [digit_char n]
      else number_toString (n div 10) @ [digit_char (n mod 10)])"

declare number_toString.simps [simp del]

text \<open>
  \<^verbatim>\<open>${x || 'any'}\<close> for a number or \<^verbatim>\<open>undefined\<close>: \<^verbatim>\<open>undefined\<close>,
  \<open>NaN\<close> and \<open>0\<close> are falsy, so the default is printed for each of them.
\<close>

definition number_or :: "jsnum option \<Rightarrow> string \<Rightarrow> string" where
  "number_or x d =
     (case x of
        None \<Rightarrow> d
      | Some NaN \<Rightarrow> d
      | Some (Num n) \<Rightarrow> if n = 0 then d else number_toString n)"

text \<open>\<^verbatim>\<open>${s || 'latest'}\<close> for a string or \<^verbatim>\<open>undefined\<close>: the empty string is falsy.\<close>

definition string_or :: "string option \<Rightarrow> string \<Rightarrow> string" where
  "string_or x d = (case x of None \<Rightarrow> d | Some s \<Rightarrow> if s = [] then d else s)"

text \<open>\<^verbatim>\<open>toLowerCase\<close> on the ASCII letters.\<close>

definition toLowerCase :: "string \<Rightarrow> string" where
  "toLowerCase s =
     map (\<lambda>c. case map_of (zip ''ABCDEFGHIJKLMNOPQRSTUVWXYZ'' ''abcdefghijklmnopqrstuvwxyz'') c of
                 Some l \<Rightarrow> l
               | None \<Rightarrow> c) s"

subsection \<open>Dates\<close>

text \<open>
  A \<^verbatim>\<open>Date\<close> object is either the invalid date or an instant. The dashboard reads
  an instant through \<^verbatim>\<open>format\<close> of \<^verbatim>\<open>date-fns\<close> only, which prints the
  calendar day (year, month, day) the instant falls on in the local time zone of the
  browser; a valid \<^verbatim>\<open>Date\<close> is modelled as that local calendar day.
  \<^verbatim>\<open>format\<close> throws a \<^verbatim>\<open>RangeError\<close> on the invalid date.
\<close>

datatype jsdate = InvalidDate | CalendarDate nat nat nat

datatype error = RangeError

definition padStart :: "nat \<Rightarrow> string \<Rightarrow> string" where
  "padStart n s = replicate (n - length s) CHR ''0'' @ s"

definition format_yyyy_MM_dd :: "jsdate \<Rightarrow> error + string" where
  "format_yyyy_MM_dd d =
     (case d of
        InvalidDate \<Rightarrow> Inl RangeError
      | CalendarDate y m dd \<Rightarrow>
          Inr (padStart 4 (number_toString y) @ ''-'' @ padStart 2 (number_toString m)
               @ ''-'' @ padStart 2 (number_toString dd)))"

definition days_in_month :: "nat \<Rightarrow> nat \<Rightarrow> nat" where
  "days_in_month y m =
     (if m = 2 then (if (y mod 4 = 0 \<and> y mod 100 \<noteq> 0) \<or> y mod 400 = 0 then 29 else 28)
      else if m = 4 \<or> m = 6 \<or> m = 9 \<or> m = 11 then 30 else 31)"

text \<open>The calendar day before a given one.\<close>

definition previous_day :: "nat \<Rightarrow> nat \<Rightarrow> nat \<Rightarrow> jsdate" where
  "previous_day y m d =
     (if 1 < d then CalendarDate y m (d - 1)
      else if 1 < m then CalendarDate y (m - 1) (days_in_month y (m - 1))
      else CalendarDate (y - 1) 12 31)"

text \<open>
  \<^verbatim>\<open>new Date(s)\<close> on the \<^verbatim>\<open>date\<close> field of an attendance record, an ISO
  calendar date \<^verbatim>\<open>YYYY-MM-DD\<close>. ECMAScript reads the date-only form as midnight
  UTC of the day it names. The first argument is the offset of the browser's local
  time from UTC at that instant, in minutes, positive east of Greenwich (zones lie
  between 12 hours west and 14 hours east). At UTC and east of it the instant falls on
  the named day in local time; west of UTC it falls on the evening of the day before.
  The model covers the years 0001 to 9999; any other string is the invalid date in
  the model (engines accept further formats, which the records contract does not
  use).
\<close>

definition new_Date :: "int \<Rightarrow> string \<Rightarrow> jsdate" where
  "new_Date timeZoneOffsetMinutes s =
     (case split CHR ''-'' s of
        [ys, ms, ds] \<Rightarrow>
          (let y = digits_val ys; m = digits_val ms; d = digits_val ds
           in if length ys = 4 \<and> length ms = 2 \<and> length ds = 2
                 \<and> list_all is_digit (ys @ ms @ ds)
                 \<and> 1 \<le> y \<and> 1 \<le> m \<and> m \<le> 12 \<and> 1 \<le> d \<and> d \<le> days_in_month y m
              then (if timeZoneOffsetMinutes < 0 then previous_day y m d
                    else CalendarDate y m d)
              else InvalidDate)
      | _ \<Rightarrow> InvalidDate)"

section \<open>The filter state and the attendance-records query\<close>

text \<open>The \<^verbatim>\<open>filters\<close> state of \<^verbatim>\<open>Index.tsx\<close>.\<close>

record FilterState =
  gender :: string
  department :: string
  travelDistance :: string
  attendanceStatus :: string
  date :: "jsdate option"

text \<open>
  \<^verbatim>\<open>const dateParam = filters.date ? format(filters.date, 'yyyy-MM-dd') : undefined\<close>.
  A \<^verbatim>\<open>Date\<close> object is truthy, valid or not.
\<close>

definition dateParam :: "FilterState \<Rightarrow> error + string option" where
  "dateParam f =
     (case date f of
        None \<Rightarrow> Inr None
      | Some d \<Rightarrow> (case format_yyyy_MM_dd d of Inl e \<Rightarrow> Inl e | Inr s \<Rightarrow> Inr (Some s)))"

text \<open>
  \<^verbatim>\<open>
  let travelMin: number | undefined;
  let travelMax: number | undefined;
  if (filters.travelDistance !== 'all') {
    const [minStr, maxStr] = filters.travelDistance.split('-');
    travelMin = parseFloat(minStr);
    travelMax = maxStr === '100' ? undefined : parseFloat(maxStr);
  }
  \<close>
\<close>

definition travelMin :: "FilterState \<Rightarrow> jsnum option" where
  "travelMin f =
     (if travelDistance f \<noteq> ''all''
      then (let minStr = nth_opt (split CHR ''-'' (travelDistance f)) 0
            in Some (parseFloat minStr))
      else None)"

definition travelMax :: "FilterState \<Rightarrow> jsnum option" where
  "travelMax f =
     (if travelDistance f \<noteq> ''all''
      then (let maxStr = nth_opt (split CHR ''-'' (travelDistance f)) 1
            in if maxStr = Some ''100'' then None else Some (parseFloat maxStr))
      else None)"

text \<open>
  The key of the attendance-records entry in the session cache:
  \<^verbatim>\<open>
  `attendanceRecords_${dateParam || 'latest'}_${genderParam}_${departmentParam}_${attendanceStatusParam}_${travelMin || 'any'}_${travelMax || 'any'}`
  \<close>
  written as a function of the six values the template reads.
\<close>

definition cacheKey ::
  "string option \<Rightarrow> string \<Rightarrow> string \<Rightarrow> string \<Rightarrow> jsnum option \<Rightarrow> jsnum option \<Rightarrow> string" where
  "cacheKey dp genderParam departmentParam attendanceStatusParam tmin tmax =
     ''attendanceRecords_'' @ string_or dp ''latest'' @ ''_'' @ genderParam @ ''_''
       @ departmentParam @ ''_'' @ attendanceStatusParam @ ''_'' @ number_or tmin ''any''
       @ ''_'' @ number_or tmax ''any''"

definition attendanceCacheKey :: "FilterState \<Rightarrow> error + string" where
  "attendanceCacheKey f =
     (case dateParam f of
        Inl e \<Rightarrow> Inl e
      | Inr dp \<Rightarrow>
          Inr (cacheKey dp (gender f) (department f) (attendanceStatus f)
                 (travelMin f) (travelMax f)))"

text \<open>
  The query parameters \<^verbatim>\<open>getAllAttendanceRecords\<close> of \<^verbatim>\<open>api.ts\<close> sends with
  \<^verbatim>\<open>GET /attendance/records\<close>. The function declares four parameters and its
  \<^verbatim>\<open>params\<close> object four fields.
\<close>

record params =
  date_filter :: "string option"
  gender_filter :: "string option"
  travelDistanceMin :: "jsnum option"
  travelDistanceMax :: "jsnum option"

definition getAllAttendanceRecords ::
  "string option \<Rightarrow> string option \<Rightarrow> jsnum option \<Rightarrow> jsnum option \<Rightarrow> params" where
  "getAllAttendanceRecords dateFilter genderFilter travelDistanceMin' travelDistanceMax' =
     \<lparr>date_filter = (case dateFilter of None \<Rightarrow> None | Some s \<Rightarrow> if s = [] then None else Some s),
      gender_filter =
        (case genderFilter of
           None \<Rightarrow> None
         | Some g \<Rightarrow> if g \<noteq> [] \<and> toLowerCase g \<noteq> ''all'' then Some g else None),
      travelDistanceMin = travelDistanceMin',
      travelDistanceMax = travelDistanceMax'\<rparr>"

text \<open>
  The call in \<^verbatim>\<open>fetchData\<close>:
  \<^verbatim>\<open>getAllAttendanceRecords(dateParam, genderParam, travelMin, travelMax, departmentParam, attendanceStatusParam)\<close>.
  The callee binds the first four arguments; the fifth and the sixth have no
  parameter to bind to and are dropped by the call.
\<close>

definition recordsRequest :: "FilterState \<Rightarrow> error + params" where
  "recordsRequest f =
     (case dateParam f of
        Inl e \<Rightarrow> Inl e
      | Inr dp \<Rightarrow> Inr (getAllAttendanceRecords dp (Some (gender f)) (travelMin f) (travelMax f)))"

section \<open>The employee roster and the derived-state calculators\<close>

text \<open>
  A \<^verbatim>\<open>travelKm\<close> field as a roster record can carry it: missing
  (\<^verbatim>\<open>undefined\<close>), \<^verbatim>\<open>null\<close>, or a number. The numbers of a JSON response are
  finite, and comparing finite doubles is comparing the rationals they stand for.
\<close>

datatype travel = Undefined | Null | Km rat

record employee =
  emp_id :: nat
  emp_gender :: string
  emp_department :: string
  travelKm :: travel

text \<open>
  The comparisons \<^verbatim>\<open>emp.travelKm >= min\<close> and \<^verbatim>\<open>emp.travelKm <= max\<close>: both
  sides are converted to numbers (\<^verbatim>\<open>null\<close> is \<open>0\<close>, \<^verbatim>\<open>undefined\<close> is
  \<open>NaN\<close>), and a comparison with \<open>NaN\<close> is false.
\<close>

definition travel_toNumber :: "travel \<Rightarrow> rat option" where
  "travel_toNumber t = (case t of Undefined \<Rightarrow> None | Null \<Rightarrow> Some 0 | Km k \<Rightarrow> Some k)"

definition bound_toNumber :: "jsnum option \<Rightarrow> rat option" where
  "bound_toNumber b = (case b of None \<Rightarrow> None | Some NaN \<Rightarrow> None | Some (Num n) \<Rightarrow> Some (of_nat n))"

definition js_ge :: "travel \<Rightarrow> jsnum option \<Rightarrow> bool" where
  "js_ge t b =
     (case travel_toNumber t of
        None \<Rightarrow> False
      | Some x \<Rightarrow> (case bound_toNumber b of None \<Rightarrow> False | Some y \<Rightarrow> y \<le> x))"

definition js_le :: "travel \<Rightarrow> jsnum option \<Rightarrow> bool" where
  "js_le t b =
     (case travel_toNumber t of
        None \<Rightarrow> False
      | Some x \<Rightarrow> (case bound_toNumber b of None \<Rightarrow> False | Some y \<Rightarrow> x \<le> y))"

text \<open>
  The employee filtering effect of \<^verbatim>\<open>Index.tsx\<close>: the value it passes to
  \<^verbatim>\<open>setFilteredEmployeeData\<close>.
  \<^verbatim>\<open>
  if (employeeData.length === 0) { setFilteredEmployeeData([]); return; }
  let result = [...employeeData];
  if (filters.gender !== 'all') result = result.filter(emp => emp.gender === filters.gender);
  if (filters.department !== 'all') result = result.filter(emp => emp.department === filters.department);
  if (filters.travelDistance !== 'all') {
    const [min, max] = filters.travelDistance.split('-').map(Number);
    result = result.filter(emp => emp.travelKm >= min && emp.travelKm <= max);
  }
  setFilteredEmployeeData(result);
  \<close>
\<close>

definition filteredEmployeeData :: "FilterState \<Rightarrow> employee list \<Rightarrow> employee list" where
  "filteredEmployeeData f employeeData =
     (if length employeeData = 0 then []
      else
        (let result = employeeData;
             result = (if gender f \<noteq> ''all''
                       then filter (\<lambda>emp. emp_gender emp = gender f) result else result);
             result = (if department f \<noteq> ''all''
                       then filter (\<lambda>emp. emp_department emp = department f) result else result);
             result = (if travelDistance f \<noteq> ''all''
                       then (let bounds = map Number (split CHR ''-'' (travelDistance f));
                                 min = nth_opt bounds 0;
                                 max = nth_opt bounds 1
                             in filter (\<lambda>emp. js_ge (travelKm emp) min \<and> js_le (travelKm emp) max) result)
                       else result)
         in result))"

text \<open>
  \<^verbatim>\<open>getGenderData\<close>: the counter object \<^verbatim>\<open>{Male: 0, Female: 0}\<close>, one pass over
  the filtered roster, and one \<^verbatim>\<open>{name, value}\<close> pair per key in the order of
  \<^verbatim>\<open>Object.keys\<close>.
\<close>

record genderCount =
  Male :: nat
  Female :: nat

record name_value =
  name :: string
  value' :: nat

definition genderStep :: "employee \<Rightarrow> genderCount \<Rightarrow> genderCount" where
  "genderStep emp gc =
     (if emp_gender emp = ''Male'' then gc\<lparr>Male := Male gc + 1\<rparr>
      else if emp_gender emp = ''Female'' then gc\<lparr>Female := Female gc + 1\<rparr>
      else gc)"

definition getGenderData :: "employee list \<Rightarrow> name_value list" where
  "getGenderData emps =
     (let gc = fold genderStep emps \<lparr>Male = 0, Female = 0\<rparr>
      in [\<lparr>name = ''Male'', value' = Male gc\<rparr>, \<lparr>name = ''Female'', value' = Female gc\<rparr>])"

text \<open>
  \<^verbatim>\<open>getTravelData\<close>: an array of five \<^verbatim>\<open>{range, count}\<close> objects, updated by
  index. Every index the loop writes is below five, the length of the array.
\<close>

record travelRange =
  range' :: string
  count :: nat

definition increment :: "nat \<Rightarrow> travelRange list \<Rightarrow> travelRange list" where
  "increment i travelRanges = travelRanges[i := (travelRanges ! i)\<lparr>count := count (travelRanges ! i) + 1\<rparr>]"

definition travelStep :: "employee \<Rightarrow> travelRange list \<Rightarrow> travelRange list" where
  "travelStep emp travelRanges =
     (case travelKm emp of
        Undefined \<Rightarrow> travelRanges
      | Null \<Rightarrow> travelRanges
      | Km km \<Rightarrow>
          if km \<le> 5 then increment 0 travelRanges
          else if km \<le> 10 then increment 1 travelRanges
          else if km \<le> 15 then increment 2 travelRanges
          else if km \<le> 20 then increment 3 travelRanges
          else increment 4 travelRanges)"

definition travelRanges0 :: "travelRange list" where
  "travelRanges0 =
     [\<lparr>range' = ''0-5'', count = 0\<rparr>, \<lparr>range' = ''5-10'', count = 0\<rparr>,
      \<lparr>range' = ''10-15'', count = 0\<rparr>, \<lparr>range' = ''15-20'', count = 0\<rparr>,
      \<lparr>range' = ''20+'', count = 0\<rparr>]"

definition getTravelData :: "employee list \<Rightarrow> travelRange list" where
  "getTravelData emps = fold travelStep emps travelRanges0"

section \<open>The fetch orchestrator\<close>

text \<open>
  The payloads of the five sources. Trend points and the two statistics objects are
  passed through by the orchestrator untouched; a statistics object is kept as its
  fields, each with its serialised value.
\<close>

record attendance_record =
  rec_id :: nat
  employeeId :: nat
  employeeName :: string
  rec_date :: "string option"
  status :: string

record TrendPoint =
  month :: string
  presentPercent :: rat
  latePercent :: rat
  absentPercent :: rat

type_synonym stats = "(string \<times> string) list"

text \<open>
  The state the component owns: the loading flag, the five live-state slots, the
  filters, the ref \<^verbatim>\<open>isInitialDateSynchronized\<close>, the two browser stores, the
  console, and the offset of the browser's local time from UTC (in minutes, positive
  east of Greenwich), which no step of the orchestrator changes. The durable store is read and written under the one key
  \<^verbatim>\<open>'employeeData'\<close>; the session store under the three fixed keys
  \<^verbatim>\<open>'attendanceTrendData'\<close>, \<^verbatim>\<open>'lateStatistics'\<close>, \<^verbatim>\<open>'onTimeStatistics'\<close> and
  under the computed keys, which all start with \<^verbatim>\<open>attendanceRecords_\<close>. Each fixed
  key is a field of the state, \<open>None\<close> when \<^verbatim>\<open>getItem\<close> gives \<^verbatim>\<open>null\<close>; the
  computed keys index a map. An entry holds the value that was serialised into it, so
  \<^verbatim>\<open>JSON.parse\<close> of an entry succeeds and a present entry is a non-empty, truthy
  string; \<^verbatim>\<open>setItem\<close> succeeds.
\<close>

record dashboard =
  isLoading :: bool
  employeeData :: "employee list"
  attendanceTrendData :: "TrendPoint list"
  attendanceRecords :: "attendance_record list"
  lateStatistics :: "stats option"
  onTimeStatistics :: "stats option"
  filters :: FilterState
  isInitialDateSynchronized :: bool
  localStorage_employeeData :: "employee list option"
  sessionStorage_attendanceTrendData :: "TrendPoint list option"
  sessionStorage_lateStatistics :: "stats option"
  sessionStorage_onTimeStatistics :: "stats option"
  sessionStorage_attendanceRecords :: "string \<rightharpoonup> attendance_record list"
  console :: "string list"
  timeZoneOffset :: int

text \<open>
  \<^verbatim>\<open>records.length > 0 && records[0].date\<close>: the \<^verbatim>\<open>date\<close> of the first record
  when the array is not empty and that field is truthy (present and not the empty
  string).
\<close>

definition firstRecordDate :: "attendance_record list \<Rightarrow> string option" where
  "firstRecordDate records =
     (case records of
        [] \<Rightarrow> None
      | r # _ \<Rightarrow> (case rec_date r of None \<Rightarrow> None | Some s \<Rightarrow> if s = [] then None else Some s))"

text \<open>
  What one run of the fetching effect fixes before it issues its requests and what
  its completion handlers close over: the \<^verbatim>\<open>filters\<close> of the render that started
  the run, the cache key and the query parameters of the records request.
\<close>

record pass =
  pass_filters :: FilterState
  attendanceCacheKey_of :: string
  request_of :: params

text \<open>
  The synchronous part of the effect, up to the point where the requests are issued.
  The flag \<^verbatim>\<open>hasCachedDataBeenSet\<close> is the second component of the pairs below.
  \<^verbatim>\<open>format\<close> runs after the four fixed-key entries have been published; when it
  throws, \<^verbatim>\<open>fetchData\<close> rejects there: no request is issued and the loading flag
  stays set.
\<close>

definition hydrateFixed :: "dashboard \<Rightarrow> dashboard \<times> bool" where
  "hydrateFixed st0 =
     (let (st, has) = (case localStorage_employeeData st0 of
                         Some cachedEmployees \<Rightarrow> (st0\<lparr>employeeData := cachedEmployees\<rparr>, True)
                       | None \<Rightarrow> (st0, False));
          (st, has) = (case sessionStorage_attendanceTrendData st of
                         Some cachedTrends \<Rightarrow> (st\<lparr>attendanceTrendData := cachedTrends\<rparr>, True)
                       | None \<Rightarrow> (st, has));
          (st, has) = (case sessionStorage_lateStatistics st of
                         Some cachedLateStats \<Rightarrow> (st\<lparr>lateStatistics := Some cachedLateStats\<rparr>, True)
                       | None \<Rightarrow> (st, has));
          (st, has) = (case sessionStorage_onTimeStatistics st of
                         Some cachedOnTimeStats \<Rightarrow> (st\<lparr>onTimeStatistics := Some cachedOnTimeStats\<rparr>, True)
                       | None \<Rightarrow> (st, has))
      in (st, has))"

definition hydrateRecords :: "FilterState \<Rightarrow> string \<Rightarrow> dashboard \<times> bool \<Rightarrow> dashboard \<times> bool" where
  "hydrateRecords f key sh =
     (let (st, has) = sh
      in case sessionStorage_attendanceRecords st key of
           None \<Rightarrow> (st, has)
         | Some cachedRecords \<Rightarrow>
             (let st = st\<lparr>attendanceRecords := cachedRecords\<rparr>
              in (case firstRecordDate cachedRecords of
                    Some d \<Rightarrow>
                      if \<not> isInitialDateSynchronized st \<and> date f = None
                      then st\<lparr>filters :=
                                (filters st)\<lparr>date := Some (new_Date (timeZoneOffset st) d)\<rparr>,
                              isInitialDateSynchronized := True\<rparr>
                      else st
                  | None \<Rightarrow> st,
                  True)))"

definition hydrate :: "dashboard \<Rightarrow> dashboard \<times> (error + pass)" where
  "hydrate st0 =
     (let f = filters st0;
          (st, has) = hydrateFixed (st0\<lparr>isLoading := True\<rparr>)
      in case dateParam f of
           Inl e \<Rightarrow> (st, Inl e)
         | Inr dp \<Rightarrow>
             (let key = cacheKey dp (gender f) (department f) (attendanceStatus f)
                          (travelMin f) (travelMax f);
                  (st, has) = hydrateRecords f key (st, has);
                  st = (if has then st\<lparr>isLoading := False\<rparr> else st)
              in (st, Inr \<lparr>pass_filters = f, attendanceCacheKey_of = key,
                           request_of = getAllAttendanceRecords dp (Some (gender f))
                                          (travelMin f) (travelMax f)\<rparr>)))"

text \<open>
  A request settles: it is rejected (a transport failure or a status that is not a
  success) or fulfilled with the payload of the response.
\<close>

datatype 'a settled = Rejected | Fulfilled 'a

datatype response =
    EmployeesResponse "employee list settled"
  | TrendsResponse "TrendPoint list settled"
  | LateStatisticsResponse "stats settled"
  | OnTimeStatisticsResponse "stats settled"
  | RecordsResponse "attendance_record list settled"

datatype source = Employees | Trends | LateStatistics | OnTimeStatistics | Records

fun source_of :: "response \<Rightarrow> source" where
  "source_of (EmployeesResponse _) = Employees"
| "source_of (TrendsResponse _) = Trends"
| "source_of (LateStatisticsResponse _) = LateStatistics"
| "source_of (OnTimeStatisticsResponse _) = OnTimeStatistics"
| "source_of (RecordsResponse _) = Records"

fun fulfilled :: "response \<Rightarrow> bool" where
  "fulfilled (EmployeesResponse r) = (r \<noteq> Rejected)"
| "fulfilled (TrendsResponse r) = (r \<noteq> Rejected)"
| "fulfilled (LateStatisticsResponse r) = (r \<noteq> Rejected)"
| "fulfilled (OnTimeStatisticsResponse r) = (r \<noteq> Rejected)"
| "fulfilled (RecordsResponse r) = (r \<noteq> Rejected)"

text \<open>
  A rejected request: the \<^verbatim>\<open>catch\<close> of the API function logs and rethrows, the
  \<^verbatim>\<open>.catch\<close> at the call site logs and returns.
\<close>

definition logFailure :: "string \<Rightarrow> string \<Rightarrow> dashboard \<Rightarrow> dashboard" where
  "logFailure apiMessage callSiteMessage st = st\<lparr>console := console st @ [apiMessage, callSiteMessage]\<rparr>"

text \<open>
  The \<^verbatim>\<open>.then\<close> handler of the records request:
  \<^verbatim>\<open>
  setAttendanceRecords(allRecords);
  sessionStorage.setItem(attendanceCacheKey, JSON.stringify(allRecords));
  if (!isInitialDateSynchronized.current && filters.date === undefined
      && allRecords.length > 0 && allRecords[0].date) {
    const backendDate = new Date(allRecords[0].date);
    setFilters(prevFilters => ({ ...prevFilters, date: backendDate }));
    isInitialDateSynchronized.current = true;
  } else if (isInitialDateSynchronized.current && allRecords.length === 0
             && filters.date !== undefined) {
    isInitialDateSynchronized.current = false;
  }
  \<close>
  \<^verbatim>\<open>filters\<close> is the object the handler closed over, \<open>pass_filters\<close>;
  \<^verbatim>\<open>prevFilters\<close> is the state's. The inner \<open>case\<close> names the date string the
  guard has just found; its \<open>None\<close> branch is never taken.
\<close>

definition recordsFulfilled :: "pass \<Rightarrow> attendance_record list \<Rightarrow> dashboard \<Rightarrow> dashboard" where
  "recordsFulfilled p allRecords st0 =
     (let st = st0\<lparr>attendanceRecords := allRecords,
                   sessionStorage_attendanceRecords :=
                     (sessionStorage_attendanceRecords st0)(attendanceCacheKey_of p \<mapsto> allRecords)\<rparr>
      in if \<not> isInitialDateSynchronized st \<and> date (pass_filters p) = None
            \<and> firstRecordDate allRecords \<noteq> None
         then (case firstRecordDate allRecords of
                 Some d \<Rightarrow>
                   st\<lparr>filters := (filters st)\<lparr>date := Some (new_Date (timeZoneOffset st) d)\<rparr>,
                      isInitialDateSynchronized := True\<rparr>
               | None \<Rightarrow> st)
         else if isInitialDateSynchronized st \<and> length allRecords = 0
                 \<and> date (pass_filters p) \<noteq> None
         then st\<lparr>isInitialDateSynchronized := False\<rparr>
         else st)"

text \<open>The completion of one request of a pass, fulfilled or rejected.\<close>

fun settle :: "pass \<Rightarrow> response \<Rightarrow> dashboard \<Rightarrow> dashboard" where
  "settle p (EmployeesResponse (Fulfilled employees)) st =
     st\<lparr>employeeData := employees, localStorage_employeeData := Some employees\<rparr>"
| "settle p (EmployeesResponse Rejected) st =
     logFailure ''Error fetching employees:'' ''Failed to fetch employees from API:'' st"
| "settle p (TrendsResponse (Fulfilled trends)) st =
     st\<lparr>attendanceTrendData := trends, sessionStorage_attendanceTrendData := Some trends\<rparr>"
| "settle p (TrendsResponse Rejected) st =
     logFailure ''Error fetching attendance trends:''
       ''Failed to fetch attendance trends from API:'' st"
| "settle p (LateStatisticsResponse (Fulfilled lateStats)) st =
     st\<lparr>lateStatistics := Some lateStats, sessionStorage_lateStatistics := Some lateStats\<rparr>"
| "settle p (LateStatisticsResponse Rejected) st =
     logFailure ''Error fetching late statistics:''
       ''Failed to fetch late statistics from API:'' st"
| "settle p (OnTimeStatisticsResponse (Fulfilled onTimeStats)) st =
     st\<lparr>onTimeStatistics := Some onTimeStats, sessionStorage_onTimeStatistics := Some onTimeStats\<rparr>"
| "settle p (OnTimeStatisticsResponse Rejected) st =
     logFailure ''Error fetching on-time statistics:''
       ''Failed to fetch on-time statistics from API:'' st"
| "settle p (RecordsResponse (Fulfilled allRecords)) st = recordsFulfilled p allRecords st"
| "settle p (RecordsResponse Rejected) st =
     logFailure ''Error fetching all attendance records:''
       ''Failed to fetch all attendance records from API:'' st"

text \<open>
  \<^verbatim>\<open>await Promise.allSettled(fetchPromises); setIsLoading(false)\<close>: the five
  completions run one at a time on the UI thread, in the order the responses arrive,
  and the loading flag is cleared after the last.
\<close>

definition settleAll :: "pass \<Rightarrow> response list \<Rightarrow> dashboard \<Rightarrow> dashboard" where
  "settleAll p responses st = (fold (settle p) responses st)\<lparr>isLoading := False\<rparr>"

text \<open>One run of the effect, with the responses in their order of arrival.\<close>

definition fetchData :: "dashboard \<Rightarrow> response list \<Rightarrow> dashboard \<times> error option" where
  "fetchData st0 responses =
     (case hydrate st0 of
        (st, Inl e) \<Rightarrow> (st, Some e)
      | (st, Inr p) \<Rightarrow> (settleAll p responses st, None))"

section \<open>Sample inputs\<close>

text \<open>
  The state of the component before its first effect runs, with empty stores, in a
  browser whose local time is UTC.
\<close>

definition dashboard0 :: dashboard where
  "dashboard0 =
     \<lparr>isLoading = True, employeeData = [], attendanceTrendData = [], attendanceRecords = [],
      lateStatistics = None, onTimeStatistics = None,
      filters = \<lparr>gender = ''all'', department = ''all'', travelDistance = ''all'',
                 attendanceStatus = ''all'', date = None\<rparr>,
      isInitialDateSynchronized = False,
      localStorage_employeeData = None, sessionStorage_attendanceTrendData = None,
      sessionStorage_lateStatistics = None, sessionStorage_onTimeStatistics = None,
      sessionStorage_attendanceRecords = Map.empty, console = [], timeZoneOffset = 0\<rparr>"

text \<open>The filter state of the end-to-end scenario.\<close>

definition scenario :: FilterState where
  "scenario =
     \<lparr>gender = ''Female'', department = ''Engineering'', travelDistance = ''0-5'',
      attendanceStatus = ''all'', date = Some (CalendarDate 2024 3 1)\<rparr>"

definition employee1 :: employee where
  "employee1 = \<lparr>emp_id = 1, emp_gender = ''Male'', emp_department = ''Engineering'', travelKm = Km 5\<rparr>"

definition employee2 :: employee where
  "employee2 = \<lparr>emp_id = 2, emp_gender = ''Female'', emp_department = ''Finance'', travelKm = Km 25\<rparr>"

definition employee3 :: employee where
  "employee3 = \<lparr>emp_id = 3, emp_gender = ''Other'', emp_department = ''Sales'', travelKm = Null\<rparr>"

definition employee4 :: employee where
  "employee4 = \<lparr>emp_id = 4, emp_gender = ''Female'', emp_department = ''Sales'', travelKm = Km 150\<rparr>"

definition record1 :: attendance_record where
  "record1 = \<lparr>rec_id = 1, employeeId = 1, employeeName = ''Employee 1'',
              rec_date = Some ''2024-03-01'', status = ''OnTime''\<rparr>"

definition record2 :: attendance_record where
  "record2 = \<lparr>rec_id = 2, employeeId = 2, employeeName = ''Employee 2'',
              rec_date = Some ''2024-04-15'', status = ''Late''\<rparr>"

text \<open>
  A state whose durable store holds a roster, the pass its effect starts, and five
  responses in one order of arrival, two of them failures.
\<close>

definition cachedRoster :: dashboard where
  "cachedRoster = dashboard0\<lparr>localStorage_employeeData := Some [employee1]\<rparr>"

definition pass0 :: pass where
  "pass0 =
     \<lparr>pass_filters = filters dashboard0,
      attendanceCacheKey_of = cacheKey None ''all'' ''all'' ''all'' None None,
      request_of = getAllAttendanceRecords None (Some ''all'') None None\<rparr>"

definition mixedResponses :: "response list" where
  "mixedResponses =
     [RecordsResponse (Fulfilled [record1]), EmployeesResponse Rejected,
      TrendsResponse (Fulfilled []), LateStatisticsResponse Rejected,
      OnTimeStatisticsResponse (Fulfilled [(''on_time_percentage'', ''87.5'')])]"

text \<open>The default filters with the open-ended travel bucket selected.\<close>

definition farFilters :: FilterState where
  "farFilters = (filters dashboard0)\<lparr>travelDistance := ''20-100''\<rparr>"

section \<open>Bucket ids: splitting and parsing\<close>

lemma is_digit_digit_char: "d < 10 \<Longrightarrow> is_digit (digit_char d)"
proof -
  assume "d < 10"
  then have "d \<in> {0,1,2,3,4,5,6,7,8,9}" by auto
  then show ?thesis by (auto simp: is_digit_def digit_char_def)
qed

lemma digit_val_digit_char: "d < 10 \<Longrightarrow> digit_val (digit_char d) = d"
proof -
  assume "d < 10"
  then have "d \<in> {0,1,2,3,4,5,6,7,8,9}" by auto
  then show ?thesis by (auto simp: digit_val_def digit_char_def)
qed

lemma digits_number_toString: "list_all is_digit (number_toString n)"
proof (induction n rule: number_toString.induct)
  case (1 n)
  show ?case
  proof (cases "n < 10")
    case True
    then show ?thesis by (simp add: number_toString.simps [of n] is_digit_digit_char)
  next
    case False
    with 1 show ?thesis
      by (simp add: number_toString.simps [of n] is_digit_digit_char)
  qed
qed

lemma number_toString_nonempty: "number_toString n \<noteq> []"
  by (simp add: number_toString.simps [of n])

lemma digits_val_snoc: "digits_val (ds @ [c]) = 10 * digits_val ds + digit_val c"
  by (simp add: digits_val_def)

lemma digits_val_number_toString: "digits_val (number_toString n) = n"
proof (induction n rule: number_toString.induct)
  case (1 n)
  show ?case
  proof (cases "n < 10")
    case True
    then show ?thesis
      by (simp add: number_toString.simps [of n] digits_val_def digit_val_digit_char)
  next
    case False
    with 1 show ?thesis
      by (simp add: number_toString.simps [of n] digits_val_snoc digit_val_digit_char)
  qed
qed

lemma split_no_sep: "sep \<notin> set s \<Longrightarrow> split sep s = [s]"
  by (induction s) auto

lemma split_at_sep: "sep \<notin> set s \<Longrightarrow> split sep (s @ sep # t) = s # split sep t"
  by (induction s) auto

lemma digit_not_dash: "list_all is_digit s \<Longrightarrow> CHR ''-'' \<notin> set s"
proof
  assume "list_all is_digit s" and "CHR ''-'' \<in> set s"
  then have "is_digit CHR ''-''" by (simp add: list_all_iff)
  then show False by (simp add: is_digit_def)
qed

lemma takeWhile_digits: "list_all is_digit s \<Longrightarrow> takeWhile is_digit s = s"
  by (simp add: list_all_iff)

lemma split_bucket:
  "split CHR ''-'' (number_toString a @ ''-'' @ number_toString b) = [number_toString a, number_toString b]"
  by (simp add: split_at_sep split_no_sep digit_not_dash digits_number_toString)

lemma parseFloat_number_toString: "parseFloat (Some (number_toString n)) = Num n"
  by (simp add: parseFloat_def takeWhile_digits digits_number_toString number_toString_nonempty digits_val_number_toString)

lemma number_toString_100: "number_toString b = ''100'' \<longleftrightarrow> b = 100"
proof
  assume h: "number_toString b = ''100''"
  have v: "digits_val ''100'' = 100" by (simp add: digits_val_def digit_val_def)
  have "digits_val (number_toString b) = b" by (rule digits_val_number_toString)
  with h v show "b = 100" by simp
next
  have e: "number_toString 100 = ''100''" by code_simp
  assume "b = 100" then show "number_toString b = ''100''" using e by simp
qed

lemma bucket_not_all: "number_toString a @ ''-'' @ s \<noteq> ''all''"
proof
  assume eq: "number_toString a @ ''-'' @ s = ''all''"
  have "CHR ''-'' \<in> set (number_toString a @ ''-'' @ s)" by simp
  then have "CHR ''-'' \<in> set ''all''" unfolding eq .
  then show False by simp
qed

lemma travel_of_bucket:
  assumes "travelDistance f = number_toString a @ ''-'' @ number_toString b"
  shows "travelMin f = Some (Num a)"
    and "travelMax f = (if b = 100 then None else Some (Num b))"
proof -
  have s: "split CHR ''-'' (travelDistance f) = [number_toString a, number_toString b]"
    unfolding assms by (rule split_bucket)
  have n: "travelDistance f \<noteq> ''all''"
    unfolding assms by (rule bucket_not_all)
  show "travelMin f = Some (Num a)"
    using n by (simp add: travelMin_def s nth_opt_def parseFloat_number_toString)
  show "travelMax f = (if b = 100 then None else Some (Num b))"
    using n by (simp add: travelMax_def s nth_opt_def parseFloat_number_toString number_toString_100)
qed

text \<open>
  C8. The bucket \<^verbatim>\<open>"20-100"\<close> gives \<open>travelMin = 20\<close> and no \<open>travelMax\<close>
  (\<^verbatim>\<open>undefined\<close>). A bucket \<^verbatim>\<open>"a-b"\<close>, written with the decimal digits of two
  integers below \<open>2 ^ 53\<close>, gives \<open>travelMin = a\<close> and \<open>travelMax = b\<close> when its upper
  bound is not \<open>100\<close>; so do, one by one, the other four buckets of the filter panel,
  \<^verbatim>\<open>"0-5"\<close>, \<^verbatim>\<open>"5-10"\<close>, \<^verbatim>\<open>"10-15"\<close> and \<^verbatim>\<open>"15-20"\<close>. The test is on the
  upper bound alone: any bucket \<^verbatim>\<open>"a-100"\<close> has no \<open>travelMax\<close>.
\<close>

theorem travel_bounds_of_bucket:
  assumes "travelDistance f = ''20-100''"
      and "travelDistance g = number_toString a @ ''-'' @ number_toString b"
      and "a < 2 ^ 53" and "b < 2 ^ 53" and "b \<noteq> 100"
      and "travelDistance h = number_toString a @ ''-'' @ ''100''"
  shows "travelMin f = Some (Num 20) \<and> travelMax f = None
       \<and> travelMin g = Some (Num a) \<and> travelMax g = Some (Num b)
       \<and> travelMin h = Some (Num a) \<and> travelMax h = None
       \<and> travelMin (f\<lparr>travelDistance := ''0-5''\<rparr>) = Some (Num 0)
       \<and> travelMax (f\<lparr>travelDistance := ''0-5''\<rparr>) = Some (Num 5)
       \<and> travelMin (f\<lparr>travelDistance := ''5-10''\<rparr>) = Some (Num 5)
       \<and> travelMax (f\<lparr>travelDistance := ''5-10''\<rparr>) = Some (Num 10)
       \<and> travelMin (f\<lparr>travelDistance := ''10-15''\<rparr>) = Some (Num 10)
       \<and> travelMax (f\<lparr>travelDistance := ''10-15''\<rparr>) = Some (Num 15)
       \<and> travelMin (f\<lparr>travelDistance := ''15-20''\<rparr>) = Some (Num 15)
       \<and> travelMax (f\<lparr>travelDistance := ''15-20''\<rparr>) = Some (Num 20)"
proof -
  have panel:
    "travelMin (f\<lparr>travelDistance := ''0-5''\<rparr>) = Some (Num 0)"
    "travelMax (f\<lparr>travelDistance := ''0-5''\<rparr>) = Some (Num 5)"
    "travelMin (f\<lparr>travelDistance := ''5-10''\<rparr>) = Some (Num 5)"
    "travelMax (f\<lparr>travelDistance := ''5-10''\<rparr>) = Some (Num 10)"
    "travelMin (f\<lparr>travelDistance := ''10-15''\<rparr>) = Some (Num 10)"
    "travelMax (f\<lparr>travelDistance := ''10-15''\<rparr>) = Some (Num 15)"
    "travelMin (f\<lparr>travelDistance := ''15-20''\<rparr>) = Some (Num 15)"
    "travelMax (f\<lparr>travelDistance := ''15-20''\<rparr>) = Some (Num 20)"
    by (simp_all add: travelMin_def travelMax_def nth_opt_def parseFloat_def is_digit_def
        digits_val_def digit_val_def)
  have n20: "number_toString 20 = ''20''" by code_simp
  have n100: "number_toString 100 = ''100''" by code_simp
  have f: "travelDistance f = number_toString 20 @ ''-'' @ number_toString 100"
    unfolding n20 n100 using assms(1) by simp
  have h: "travelDistance h = number_toString a @ ''-'' @ number_toString 100"
    unfolding n100 by (rule assms(6))
  have "travelMin f = Some (Num 20)" and "travelMax f = None"
    using travel_of_bucket [OF f] by simp_all
  moreover have "travelMin g = Some (Num a)" and "travelMax g = Some (Num b)"
    using travel_of_bucket [OF assms(2)] assms(5) by simp_all
  moreover have "travelMin h = Some (Num a)" and "travelMax h = None"
    using travel_of_bucket [OF h] by simp_all
  ultimately show ?thesis using panel by simp
qed

theorem travel_bounds_of_bucket_witness:
  "travelMin (scenario\<lparr>travelDistance := ''20-100''\<rparr>) = Some (Num 20)
   \<and> travelMax (scenario\<lparr>travelDistance := ''20-100''\<rparr>) = None
   \<and> travelMin (scenario\<lparr>travelDistance := ''7-12''\<rparr>) = Some (Num 7)
   \<and> travelMax (scenario\<lparr>travelDistance := ''7-12''\<rparr>) = Some (Num 12)
   \<and> travelMin (scenario\<lparr>travelDistance := ''7-100''\<rparr>) = Some (Num 7)
   \<and> travelMax (scenario\<lparr>travelDistance := ''7-100''\<rparr>) = None"
proof -
  have n7: "number_toString 7 = ''7''" by code_simp
  have n12: "number_toString 12 = ''12''" by code_simp
  have f: "travelDistance (scenario\<lparr>travelDistance := ''20-100''\<rparr>) = ''20-100''" by simp
  have g: "travelDistance (scenario\<lparr>travelDistance := ''7-12''\<rparr>)
             = number_toString 7 @ ''-'' @ number_toString 12"
    unfolding n7 n12 by simp
  have h: "travelDistance (scenario\<lparr>travelDistance := ''7-100''\<rparr>)
             = number_toString 7 @ ''-'' @ ''100''"
    unfolding n7 by simp
  have a: "(7::nat) < 2 ^ 53" by simp
  have b: "(12::nat) < 2 ^ 53" by simp
  have c: "(12::nat) \<noteq> 100" by simp
  show ?thesis using travel_bounds_of_bucket [OF f g a b c h] by simp
qed

section \<open>The derived-state calculators\<close>

lemma fold_genderStep:
  "fold genderStep emps gc =
     \<lparr>Male = Male gc + length (filter (\<lambda>e. emp_gender e = ''Male'') emps),
      Female = Female gc + length (filter (\<lambda>e. emp_gender e = ''Female'') emps)\<rparr>"
proof (induction emps arbitrary: gc)
  case Nil
  show ?case by simp
next
  case (Cons e emps)
  have "fold genderStep (e # emps) gc = fold genderStep emps (genderStep e gc)"
    by simp
  also have "\<dots> =
     \<lparr>Male = Male (genderStep e gc) + length (filter (\<lambda>e. emp_gender e = ''Male'') emps),
      Female = Female (genderStep e gc) + length (filter (\<lambda>e. emp_gender e = ''Female'') emps)\<rparr>"
    by (rule Cons.IH)
  also have "\<dots> =
     \<lparr>Male = Male gc + length (filter (\<lambda>e. emp_gender e = ''Male'') (e # emps)),
      Female = Female gc + length (filter (\<lambda>e. emp_gender e = ''Female'') (e # emps))\<rparr>"
    by (simp add: genderStep_def)
  finally show ?case .
qed

lemma getGenderData_counts:
  "getGenderData emps =
     [\<lparr>name = ''Male'', value' = length (filter (\<lambda>e. emp_gender e = ''Male'') emps)\<rparr>,
      \<lparr>name = ''Female'', value' = length (filter (\<lambda>e. emp_gender e = ''Female'') emps)\<rparr>]"
  by (simp add: getGenderData_def fold_genderStep)

text \<open>
  C6. The gender-distribution calculator returns the two pairs \<open>Male\<close> and \<open>Female\<close>,
  in that order, each with the number of records whose gender is exactly that string.
  A record with any other gender changes neither count. For the genders \<open>Male\<close>,
  \<open>Female\<close>, \<open>Other\<close> the output is \<open>[{Male, 1}, {Female, 1}]\<close>.
\<close>

theorem gender_distribution:
  "getGenderData emps =
     [\<lparr>name = ''Male'', value' = length (filter (\<lambda>e. emp_gender e = ''Male'') emps)\<rparr>,
      \<lparr>name = ''Female'', value' = length (filter (\<lambda>e. emp_gender e = ''Female'') emps)\<rparr>]
   \<and> (emp_gender e \<noteq> ''Male'' \<and> emp_gender e \<noteq> ''Female''
        \<longrightarrow> getGenderData (xs @ e # ys) = getGenderData (xs @ ys))
   \<and> getGenderData [e1\<lparr>emp_gender := ''Male''\<rparr>, e2\<lparr>emp_gender := ''Female''\<rparr>,
                     e3\<lparr>emp_gender := ''Other''\<rparr>]
       = [\<lparr>name = ''Male'', value' = 1\<rparr>, \<lparr>name = ''Female'', value' = 1\<rparr>]"
  by (simp add: getGenderData_counts)

theorem gender_distribution_witness:
  "getGenderData [employee1, employee2, employee3]
     = [\<lparr>name = ''Male'', value' = 1\<rparr>, \<lparr>name = ''Female'', value' = 1\<rparr>]
   \<and> getGenderData [employee1, employee3, employee2] = getGenderData [employee1, employee2]"
  using gender_distribution [of "[employee1, employee2, employee3]" employee3 "[employee1]" "[employee2]"]
  by (simp add: employee1_def employee2_def employee3_def)

lemma travelStep_counts:
  "travelStep e
     [\<lparr>range' = r0, count = c0\<rparr>, \<lparr>range' = r1, count = c1\<rparr>, \<lparr>range' = r2, count = c2\<rparr>,
      \<lparr>range' = r3, count = c3\<rparr>, \<lparr>range' = r4, count = c4\<rparr>] =
     [\<lparr>range' = r0, count = c0 + (case travelKm e of Km k \<Rightarrow> if k \<le> 5 then 1 else 0 | _ \<Rightarrow> 0)\<rparr>,
      \<lparr>range' = r1, count = c1 + (case travelKm e of Km k \<Rightarrow> if 5 < k \<and> k \<le> 10 then 1 else 0 | _ \<Rightarrow> 0)\<rparr>,
      \<lparr>range' = r2, count = c2 + (case travelKm e of Km k \<Rightarrow> if 10 < k \<and> k \<le> 15 then 1 else 0 | _ \<Rightarrow> 0)\<rparr>,
      \<lparr>range' = r3, count = c3 + (case travelKm e of Km k \<Rightarrow> if 15 < k \<and> k \<le> 20 then 1 else 0 | _ \<Rightarrow> 0)\<rparr>,
      \<lparr>range' = r4, count = c4 + (case travelKm e of Km k \<Rightarrow> if 20 < k then 1 else 0 | _ \<Rightarrow> 0)\<rparr>]"
  by (cases "travelKm e") (simp_all add: travelStep_def increment_def)

lemma fold_travelStep:
  "fold travelStep emps
     [\<lparr>range' = r0, count = c0\<rparr>, \<lparr>range' = r1, count = c1\<rparr>, \<lparr>range' = r2, count = c2\<rparr>,
      \<lparr>range' = r3, count = c3\<rparr>, \<lparr>range' = r4, count = c4\<rparr>] =
     [\<lparr>range' = r0, count = c0 + length (filter (\<lambda>e. case travelKm e of Km k \<Rightarrow> k \<le> 5 | _ \<Rightarrow> False) emps)\<rparr>,
      \<lparr>range' = r1, count = c1 + length (filter (\<lambda>e. case travelKm e of Km k \<Rightarrow> 5 < k \<and> k \<le> 10 | _ \<Rightarrow> False) emps)\<rparr>,
      \<lparr>range' = r2, count = c2 + length (filter (\<lambda>e. case travelKm e of Km k \<Rightarrow> 10 < k \<and> k \<le> 15 | _ \<Rightarrow> False) emps)\<rparr>,
      \<lparr>range' = r3, count = c3 + length (filter (\<lambda>e. case travelKm e of Km k \<Rightarrow> 15 < k \<and> k \<le> 20 | _ \<Rightarrow> False) emps)\<rparr>,
      \<lparr>range' = r4, count = c4 + length (filter (\<lambda>e. case travelKm e of Km k \<Rightarrow> 20 < k | _ \<Rightarrow> False) emps)\<rparr>]"
proof (induction emps arbitrary: c0 c1 c2 c3 c4)
  case Nil
  show ?case by simp
next
  case (Cons e emps)
  show ?case
    unfolding fold_Cons comp_apply travelStep_counts Cons.IH
    by (cases "travelKm e") simp_all
qed

lemma getTravelData_counts:
  "getTravelData emps =
     [\<lparr>range' = ''0-5'', count = length (filter (\<lambda>e. case travelKm e of Km k \<Rightarrow> k \<le> 5 | _ \<Rightarrow> False) emps)\<rparr>,
      \<lparr>range' = ''5-10'', count = length (filter (\<lambda>e. case travelKm e of Km k \<Rightarrow> 5 < k \<and> k \<le> 10 | _ \<Rightarrow> False) emps)\<rparr>,
      \<lparr>range' = ''10-15'', count = length (filter (\<lambda>e. case travelKm e of Km k \<Rightarrow> 10 < k \<and> k \<le> 15 | _ \<Rightarrow> False) emps)\<rparr>,
      \<lparr>range' = ''15-20'', count = length (filter (\<lambda>e. case travelKm e of Km k \<Rightarrow> 15 < k \<and> k \<le> 20 | _ \<Rightarrow> False) emps)\<rparr>,
      \<lparr>range' = ''20+'', count = length (filter (\<lambda>e. case travelKm e of Km k \<Rightarrow> 20 < k | _ \<Rightarrow> False) emps)\<rparr>]"
  unfolding getTravelData_def travelRanges0_def fold_travelStep by simp



lemma split_20_100: "split CHR ''-'' ''20-100'' = [''20'', ''100'']"
  by simp

lemma Number_20: "Number ''20'' = Num 20"
  by (simp add: Number_def is_digit_def digits_val_def digit_val_def)

lemma Number_100: "Number ''100'' = Num 100"
  by (simp add: Number_def is_digit_def digits_val_def digit_val_def)

lemma in_20_100:
  "(js_ge t (Some (Num 20)) \<and> js_le t (Some (Num 100)))
     = (case t of Km k \<Rightarrow> 20 \<le> k \<and> k \<le> 100 | _ \<Rightarrow> False)"
  by (cases t) (simp_all add: js_ge_def js_le_def travel_toNumber_def bound_toNumber_def)

lemma filtered_20_100:
  assumes "travelDistance f = ''20-100''"
  shows "filteredEmployeeData f emps =
     filter (\<lambda>e. (gender f = ''all'' \<or> emp_gender e = gender f)
                \<and> (department f = ''all'' \<or> emp_department e = department f)
                \<and> (case travelKm e of Km k \<Rightarrow> 20 \<le> k \<and> k \<le> 100 | _ \<Rightarrow> False)) emps"
proof (cases "emps = []")
  case True
  then show ?thesis by (simp add: filteredEmployeeData_def)
next
  case False
  then show ?thesis
    using assms
    by (simp add: filteredEmployeeData_def Let_def split_20_100 Number_20 Number_100 nth_opt_def
        in_20_100 conj_commute conj_left_commute cong: conj_cong)
qed


text \<open>
  C10. With the travel bucket \<^verbatim>\<open>"20-100"\<close> the client-side roster filter keeps
  exactly the employees that pass the gender and department filters and whose
  \<open>travelKm\<close> is a number between 20 and 100, both included; with gender and
  department \<open>all\<close>, exactly those with \<open>20 \<le> travelKm \<le> 100\<close>. An employee
  with \<open>travelKm\<close> above 100 is not in the filtered roster, which is what every
  chart is computed from, although the histogram counts such an employee in its
  \<open>20+\<close> bucket and the same bucket gives the network request no upper bound.
\<close>

theorem far_commuters_filtered_out:
  assumes "travelDistance f = ''20-100''"
  shows "filteredEmployeeData f emps =
           filter (\<lambda>e. (gender f = ''all'' \<or> emp_gender e = gender f)
                      \<and> (department f = ''all'' \<or> emp_department e = department f)
                      \<and> (case travelKm e of Km k \<Rightarrow> 20 \<le> k \<and> k \<le> 100 | _ \<Rightarrow> False)) emps
       \<and> (gender f = ''all'' \<and> department f = ''all'' \<longrightarrow>
            filteredEmployeeData f emps =
              filter (\<lambda>e. case travelKm e of Km k \<Rightarrow> 20 \<le> k \<and> k \<le> 100 | _ \<Rightarrow> False) emps)
       \<and> (travelKm e = Km k \<and> 100 < k \<longrightarrow>
            e \<notin> set (filteredEmployeeData f emps)
          \<and> map count (getTravelData [e]) = [0, 0, 0, 0, 1])
       \<and> travelMax f = None"
proof -
  note a = filtered_20_100 [OF assms, of emps]
  have b: "gender f = ''all'' \<and> department f = ''all'' \<longrightarrow>
            filteredEmployeeData f emps =
              filter (\<lambda>e. case travelKm e of Km k \<Rightarrow> 20 \<le> k \<and> k \<le> 100 | _ \<Rightarrow> False) emps"
    unfolding a by simp
  have c: "travelKm e = Km k \<and> 100 < k \<longrightarrow>
            e \<notin> set (filteredEmployeeData f emps)
          \<and> map count (getTravelData [e]) = [0, 0, 0, 0, 1]"
    unfolding a by (simp add: getTravelData_counts)
  have d: "travelMax f = None"
    using assms by (simp add: travelMax_def nth_opt_def)
  from a b c d show ?thesis by (intro conjI)
qed

theorem far_commuters_filtered_out_witness:
  "filteredEmployeeData farFilters [employee1, employee2, employee4] = [employee2]
   \<and> employee4 \<notin> set (filteredEmployeeData farFilters [employee1, employee2, employee4])
   \<and> map count (getTravelData [employee4]) = [0, 0, 0, 0, 1]
   \<and> travelMax farFilters = None"
proof -
  have t: "travelDistance farFilters = ''20-100''" by (simp add: farFilters_def)
  have g: "gender farFilters = ''all'' \<and> department farFilters = ''all''"
    by (simp add: farFilters_def dashboard0_def)
  have k: "travelKm employee4 = Km 150 \<and> (100::rat) < 150" by (simp add: employee4_def)
  show ?thesis
    using far_commuters_filtered_out [OF t, of "[employee1, employee2, employee4]" employee4 150] g k
    by (simp add: employee1_def employee2_def employee4_def)
qed

section \<open>The automatic synchronisation of the date filter\<close>

lemma firstRecordDate_Cons:
  "rec_date r = Some d \<Longrightarrow> d \<noteq> [] \<Longrightarrow> firstRecordDate (r # rs) = Some d"
  by (simp add: firstRecordDate_def)

lemma firstRecordDate_Nil: "firstRecordDate [] = None"
  by (simp add: firstRecordDate_def)

lemma recordsFulfilled_sync:
  assumes "\<not> isInitialDateSynchronized st" and "date (pass_filters p) = None"
      and "firstRecordDate recs = Some d"
  shows "recordsFulfilled p recs st =
           st\<lparr>attendanceRecords := recs,
              sessionStorage_attendanceRecords :=
                (sessionStorage_attendanceRecords st)(attendanceCacheKey_of p \<mapsto> recs),
              filters := (filters st)\<lparr>date := Some (new_Date (timeZoneOffset st) d)\<rparr>,
              isInitialDateSynchronized := True\<rparr>"
  using assms by (simp add: recordsFulfilled_def)

lemma recordsFulfilled_else:
  assumes "\<not> (\<not> isInitialDateSynchronized st \<and> date (pass_filters p) = None
              \<and> firstRecordDate recs \<noteq> None)"
  shows "isInitialDateSynchronized (recordsFulfilled p recs st)
           = (if isInitialDateSynchronized st \<and> recs = [] \<and> date (pass_filters p) \<noteq> None
              then False else isInitialDateSynchronized st)"
    and "filters (recordsFulfilled p recs st) = filters st"
  using assms by (auto simp add: recordsFulfilled_def Let_def)

lemma recordsFulfilled_synced_nonempty:
  assumes "isInitialDateSynchronized st" and "recs \<noteq> []"
  shows "filters (recordsFulfilled p recs st) = filters st
       \<and> isInitialDateSynchronized (recordsFulfilled p recs st)"
  using assms by (simp add: recordsFulfilled_else)

lemma later_responses_keep_sync:
  assumes "isInitialDateSynchronized st" and "\<forall>(q, recs) \<in> set later. recs \<noteq> []"
  shows "filters (fold (\<lambda>(q, recs). recordsFulfilled q recs) later st) = filters st
       \<and> isInitialDateSynchronized (fold (\<lambda>(q, recs). recordsFulfilled q recs) later st)"
  using assms
proof (induction later arbitrary: st)
  case Nil
  then show ?case by simp
next
  case (Cons x later)
  obtain q recs where x: "x = (q, recs)" by (cases x)
  with Cons.prems have ne: "recs \<noteq> []" by simp
  have step: "filters (recordsFulfilled q recs st) = filters st
       \<and> isInitialDateSynchronized (recordsFulfilled q recs st)"
    by (rule recordsFulfilled_synced_nonempty [OF Cons.prems(1) ne])
  from Cons.prems have rest: "\<forall>(q, recs) \<in> set later. recs \<noteq> []" by simp
  from Cons.IH [OF conjunct2 [OF step] rest] step x show ?case by simp
qed

lemma timeZoneOffset_recordsFulfilled:
  "timeZoneOffset (recordsFulfilled p recs st) = timeZoneOffset st"
  by (simp add: recordsFulfilled_def Let_def split: option.splits)

text \<open>
  When the handler synchronises, the date of the filter state is the \<^verbatim>\<open>Date\<close>
  built from the first record's date string in the browser's zone and the flag is set;
  after that no sequence of non-empty responses changes the filters or the flag.
\<close>

lemma sync_fires_once:
  assumes "\<not> isInitialDateSynchronized st" and "date (pass_filters p) = None"
      and "rec_date r = Some d" and "d \<noteq> []"
      and "\<forall>(q, recs) \<in> set later. recs \<noteq> []"
  shows "date (filters (recordsFulfilled p (r # rs) st)) = Some (new_Date (timeZoneOffset st) d)
       \<and> isInitialDateSynchronized (recordsFulfilled p (r # rs) st)
       \<and> filters (fold (\<lambda>(q, recs). recordsFulfilled q recs) later (recordsFulfilled p (r # rs) st))
           = filters (recordsFulfilled p (r # rs) st)
       \<and> isInitialDateSynchronized
           (fold (\<lambda>(q, recs). recordsFulfilled q recs) later (recordsFulfilled p (r # rs) st))"
proof -
  have f: "firstRecordDate (r # rs) = Some d"
    by (rule firstRecordDate_Cons [OF assms(3) assms(4)])
  have s: "date (filters (recordsFulfilled p (r # rs) st)) = Some (new_Date (timeZoneOffset st) d)
       \<and> isInitialDateSynchronized (recordsFulfilled p (r # rs) st)"
    by (simp add: recordsFulfilled_sync [OF assms(1) assms(2) f])
  have l: "filters (fold (\<lambda>(q, recs). recordsFulfilled q recs) later (recordsFulfilled p (r # rs) st))
           = filters (recordsFulfilled p (r # rs) st)
       \<and> isInitialDateSynchronized
           (fold (\<lambda>(q, recs). recordsFulfilled q recs) later (recordsFulfilled p (r # rs) st))"
    by (rule later_responses_keep_sync [OF conjunct2 [OF s] assms(5)])
  from s l show ?thesis by blast
qed

lemma new_Date_zone:
  "new_Date tz s = (if tz < 0 then new_Date (- 1) s else new_Date 0 s)"
  by (cases "tz < 0") (simp_all add: new_Date_def Let_def split: list.splits)

lemma new_Date_first_of_March:
  "new_Date tz ''2024-03-01'' = (if tz < 0 then CalendarDate 2024 2 29 else CalendarDate 2024 3 1)"
proof -
  have w: "new_Date (- 1) ''2024-03-01'' = CalendarDate 2024 2 29" by code_simp
  have e: "new_Date 0 ''2024-03-01'' = CalendarDate 2024 3 1" by code_simp
  show ?thesis unfolding new_Date_zone [of tz] w e ..
qed

text \<open>
  C3. In the success handler of the records request, with the flag
  \<open>isInitialDateSynchronized\<close> unset, the date filter the handler reads undefined
  and a first record dated \<^verbatim>\<open>"2024-03-01"\<close>: the flag is set, and a further
  non-empty response, of whichever pass, leaves the filters and the flag as they are.
  The date of the filter state becomes \<^verbatim>\<open>new Date("2024-03-01")\<close>, midnight UTC.
  In every zone at or east of UTC that is the first of March 2024, the record's
  date. In every zone west of UTC it is the 29th of February in local time, which
  is what \<^verbatim>\<open>format\<close> reads: the date parameter of the next request is
  \<^verbatim>\<open>2024-02-29\<close>, not the date of the record.
\<close>

theorem auto_date_sync_west_of_utc:
  "isInitialDateSynchronized
     (recordsFulfilled (p\<lparr>pass_filters := f\<lparr>date := None\<rparr>\<rparr>)
        (r\<lparr>rec_date := Some ''2024-03-01''\<rparr> # rs)
        (st\<lparr>isInitialDateSynchronized := False\<rparr>))
   \<and> filters (recordsFulfilled q (r' # rs')
        (recordsFulfilled (p\<lparr>pass_filters := f\<lparr>date := None\<rparr>\<rparr>)
           (r\<lparr>rec_date := Some ''2024-03-01''\<rparr> # rs)
           (st\<lparr>isInitialDateSynchronized := False\<rparr>)))
       = filters (recordsFulfilled (p\<lparr>pass_filters := f\<lparr>date := None\<rparr>\<rparr>)
           (r\<lparr>rec_date := Some ''2024-03-01''\<rparr> # rs)
           (st\<lparr>isInitialDateSynchronized := False\<rparr>))
   \<and> isInitialDateSynchronized (recordsFulfilled q (r' # rs')
        (recordsFulfilled (p\<lparr>pass_filters := f\<lparr>date := None\<rparr>\<rparr>)
           (r\<lparr>rec_date := Some ''2024-03-01''\<rparr> # rs)
           (st\<lparr>isInitialDateSynchronized := False\<rparr>)))
   \<and> date (filters (recordsFulfilled (p\<lparr>pass_filters := f\<lparr>date := None\<rparr>\<rparr>)
        (r\<lparr>rec_date := Some ''2024-03-01''\<rparr> # rs)
        (st\<lparr>isInitialDateSynchronized := False, timeZoneOffset := int east\<rparr>)))
       = Some (CalendarDate 2024 3 1)
   \<and> date (filters (recordsFulfilled (p\<lparr>pass_filters := f\<lparr>date := None\<rparr>\<rparr>)
        (r\<lparr>rec_date := Some ''2024-03-01''\<rparr> # rs)
        (st\<lparr>isInitialDateSynchronized := False, timeZoneOffset := - int (Suc west)\<rparr>)))
       = Some (CalendarDate 2024 2 29)
   \<and> dateParam (filters (recordsFulfilled (p\<lparr>pass_filters := f\<lparr>date := None\<rparr>\<rparr>)
        (r\<lparr>rec_date := Some ''2024-03-01''\<rparr> # rs)
        (st\<lparr>isInitialDateSynchronized := False, timeZoneOffset := - int (Suc west)\<rparr>)))
       = Inr (Some ''2024-02-29'')"
proof -
  let ?p = "p\<lparr>pass_filters := f\<lparr>date := None\<rparr>\<rparr>"
  let ?recs = "r\<lparr>rec_date := Some ''2024-03-01''\<rparr> # rs"
  have fr: "firstRecordDate ?recs = Some ''2024-03-01''"
    by (simp add: firstRecordDate_def)
  have d: "date (pass_filters ?p) = None" by simp
  have sync: "date (filters (recordsFulfilled ?p ?recs s))
                = Some (new_Date (timeZoneOffset s) ''2024-03-01'')
              \<and> isInitialDateSynchronized (recordsFulfilled ?p ?recs s)"
    if "\<not> isInitialDateSynchronized s" for s
    by (simp add: recordsFulfilled_sync [OF that d fr])
  have flag: "isInitialDateSynchronized
     (recordsFulfilled ?p ?recs (st\<lparr>isInitialDateSynchronized := False\<rparr>))"
    by (simp add: sync)
  have once: "filters (recordsFulfilled q (r' # rs')
        (recordsFulfilled ?p ?recs (st\<lparr>isInitialDateSynchronized := False\<rparr>)))
       = filters (recordsFulfilled ?p ?recs (st\<lparr>isInitialDateSynchronized := False\<rparr>))
     \<and> isInitialDateSynchronized (recordsFulfilled q (r' # rs')
        (recordsFulfilled ?p ?recs (st\<lparr>isInitialDateSynchronized := False\<rparr>)))"
    by (rule recordsFulfilled_synced_nonempty [OF flag]) simp
  have e: "date (filters (recordsFulfilled ?p ?recs
        (st\<lparr>isInitialDateSynchronized := False, timeZoneOffset := int east\<rparr>)))
       = Some (CalendarDate 2024 3 1)"
    by (simp add: sync new_Date_first_of_March)
  have w: "date (filters (recordsFulfilled ?p ?recs
        (st\<lparr>isInitialDateSynchronized := False, timeZoneOffset := - int (Suc west)\<rparr>)))
       = Some (CalendarDate 2024 2 29)"
    by (simp add: sync new_Date_first_of_March)
  have fm: "format_yyyy_MM_dd (CalendarDate 2024 2 29) = Inr ''2024-02-29''" by code_simp
  have dp: "dateParam (filters (recordsFulfilled ?p ?recs
        (st\<lparr>isInitialDateSynchronized := False, timeZoneOffset := - int (Suc west)\<rparr>)))
       = Inr (Some ''2024-02-29'')"
    using w by (simp add: dateParam_def fm)
  from flag once e w dp show ?thesis by (intro conjI) simp_all
qed

text \<open>
  C4. Once the flag is set, a records response with an empty array, handled while the
  date filter the handler reads is set, clears the flag; a following non-empty
  response handled with the date filter unset then synchronises the date again and
  sets the flag. Wherever the handler does not synchronise, the flag is cleared in
  that one case and left as it was in every other.
\<close>

theorem auto_date_sync_reset:
  assumes "isInitialDateSynchronized st" and "date (pass_filters p) \<noteq> None"
      and "date (pass_filters q) = None" and "rec_date r = Some d" and "d \<noteq> []"
  shows "\<not> isInitialDateSynchronized (recordsFulfilled p [] st)
       \<and> date (filters (recordsFulfilled q (r # rs) (recordsFulfilled p [] st)))
           = Some (new_Date (timeZoneOffset st) d)
       \<and> isInitialDateSynchronized (recordsFulfilled q (r # rs) (recordsFulfilled p [] st))
       \<and> (\<not> (\<not> isInitialDateSynchronized st' \<and> date (pass_filters p') = None
               \<and> firstRecordDate recs \<noteq> None)
            \<longrightarrow> isInitialDateSynchronized (recordsFulfilled p' recs st')
                = (if isInitialDateSynchronized st' \<and> recs = [] \<and> date (pass_filters p') \<noteq> None
                   then False else isInitialDateSynchronized st'))"
proof -
  have a: "\<not> isInitialDateSynchronized (recordsFulfilled p [] st)"
    using assms(1,2) by (simp add: recordsFulfilled_else firstRecordDate_Nil)
  have f: "firstRecordDate (r # rs) = Some d"
    by (rule firstRecordDate_Cons [OF assms(4) assms(5)])
  have b: "date (filters (recordsFulfilled q (r # rs) (recordsFulfilled p [] st)))
           = Some (new_Date (timeZoneOffset st) d)
       \<and> isInitialDateSynchronized (recordsFulfilled q (r # rs) (recordsFulfilled p [] st))"
    by (simp add: recordsFulfilled_sync [OF a assms(3) f] timeZoneOffset_recordsFulfilled)
  have c: "\<not> (\<not> isInitialDateSynchronized st' \<and> date (pass_filters p') = None
               \<and> firstRecordDate recs \<noteq> None)
            \<Longrightarrow> isInitialDateSynchronized (recordsFulfilled p' recs st')
                = (if isInitialDateSynchronized st' \<and> recs = [] \<and> date (pass_filters p') \<noteq> None
                   then False else isInitialDateSynchronized st')"
    by (rule recordsFulfilled_else(1))
  from a b c show ?thesis by blast
qed

theorem auto_date_sync_reset_witness:
  "\<not> isInitialDateSynchronized
       (recordsFulfilled \<lparr>pass_filters = scenario, attendanceCacheKey_of = ''k1'',
            request_of = getAllAttendanceRecords None (Some ''all'') None None\<rparr> []
          (dashboard0\<lparr>isInitialDateSynchronized := True\<rparr>))
   \<and> date (filters (recordsFulfilled \<lparr>pass_filters = filters dashboard0, attendanceCacheKey_of = ''k2'',
            request_of = getAllAttendanceRecords None (Some ''all'') None None\<rparr> [record2]
        (recordsFulfilled \<lparr>pass_filters = scenario, attendanceCacheKey_of = ''k1'',
            request_of = getAllAttendanceRecords None (Some ''all'') None None\<rparr> []
          (dashboard0\<lparr>isInitialDateSynchronized := True\<rparr>)))) = Some (CalendarDate 2024 4 15)
   \<and> isInitialDateSynchronized
       (recordsFulfilled \<lparr>pass_filters = scenario, attendanceCacheKey_of = ''k1'',
            request_of = getAllAttendanceRecords None (Some ''all'') None None\<rparr> [record1]
          (dashboard0\<lparr>isInitialDateSynchronized := True\<rparr>))"
proof -
  let ?p = "\<lparr>pass_filters = scenario, attendanceCacheKey_of = ''k1'',
            request_of = getAllAttendanceRecords None (Some ''all'') None None\<rparr>"
  let ?q = "\<lparr>pass_filters = filters dashboard0, attendanceCacheKey_of = ''k2'',
            request_of = getAllAttendanceRecords None (Some ''all'') None None\<rparr>"
  let ?st = "dashboard0\<lparr>isInitialDateSynchronized := True\<rparr>"
  have n: "new_Date 0 ''2024-04-15'' = CalendarDate 2024 4 15" by code_simp
  have z: "timeZoneOffset ?st = 0" by (simp add: dashboard0_def)
  have a: "isInitialDateSynchronized ?st" by simp
  have b: "date (pass_filters ?p) \<noteq> None" by (simp add: scenario_def)
  have c: "date (pass_filters ?q) = None" by (simp add: dashboard0_def)
  have d: "rec_date record2 = Some ''2024-04-15''" by (simp add: record2_def)
  have e: "''2024-04-15'' \<noteq> []" by simp
  show ?thesis
    using auto_date_sync_reset [OF a b c d e, of "[]" ?st ?p "[record1]"]
    by (simp add: n z)
qed

section \<open>Settling the five requests\<close>

lemma settle_rejected:
  "\<not> fulfilled r \<Longrightarrow> \<exists>m1 m2. settle p r st = st\<lparr>console := console st @ [m1, m2]\<rparr>"
  by (cases r) (auto simp add: logFailure_def)

lemma fold_settle_other:
  assumes frame: "\<And>r' st'. source_of r' \<noteq> s \<Longrightarrow> g (settle p r' st') = g st'"
      and "s \<notin> set (map source_of rs)"
  shows "g (fold (settle p) rs st) = g st"
  using assms(2)
proof (induction rs arbitrary: st)
  case Nil
  show ?case by simp
next
  case (Cons r' rs)
  from Cons.prems have ne: "source_of r' \<noteq> s" and rest: "s \<notin> set (map source_of rs)"
    by auto
  have "g (fold (settle p) (r' # rs) st) = g (fold (settle p) rs (settle p r' st))"
    by simp
  also have "\<dots> = g (settle p r' st)" by (rule Cons.IH [OF rest])
  also have "\<dots> = g st" by (rule frame [OF ne])
  finally show ?case .
qed

lemma fold_settle_own:
  assumes frame: "\<And>r' st'. source_of r' \<noteq> source_of r \<Longrightarrow> g (settle p r' st') = g st'"
      and own: "\<And>st'. g (settle p r st') = v st'"
      and const: "\<And>r' st'. source_of r' \<noteq> source_of r \<Longrightarrow> v (settle p r' st') = v st'"
      and "distinct (map source_of rs)" and "r \<in> set rs"
  shows "g (fold (settle p) rs st) = v st"
  using assms(4,5)
proof (induction rs arbitrary: st)
  case Nil
  then show ?case by simp
next
  case (Cons r' rs)
  show ?case
  proof (cases "r' = r")
    case True
    with Cons.prems have "source_of r \<notin> set (map source_of rs)" by simp
    then have "g (fold (settle p) rs (settle p r st)) = g (settle p r st)"
      using frame by (rule fold_settle_other [where g = g and s = "source_of r", rotated])
    with True own show ?thesis by simp
  next
    case False
    with Cons.prems have in_rest: "r \<in> set rs" and d: "distinct (map source_of rs)"
      and ne: "source_of r' \<noteq> source_of r"
      by auto
    have "g (fold (settle p) rs (settle p r' st)) = v (settle p r' st)"
      by (rule Cons.IH [OF d in_rest])
    with const [OF ne] show ?thesis by simp
  qed
qed

lemma settle_frame_employees:
  "source_of r \<noteq> Employees \<Longrightarrow>
     employeeData (settle p r st) = employeeData st
     \<and> localStorage_employeeData (settle p r st) = localStorage_employeeData st"
  by (cases "(p, r, st)" rule: settle.cases) (simp_all add: logFailure_def recordsFulfilled_def Let_def split: option.splits)

lemma settle_frame_trends:
  "source_of r \<noteq> Trends \<Longrightarrow>
     attendanceTrendData (settle p r st) = attendanceTrendData st
     \<and> sessionStorage_attendanceTrendData (settle p r st) = sessionStorage_attendanceTrendData st"
  by (cases "(p, r, st)" rule: settle.cases) (simp_all add: logFailure_def recordsFulfilled_def Let_def split: option.splits)

lemma settle_frame_late:
  "source_of r \<noteq> LateStatistics \<Longrightarrow>
     lateStatistics (settle p r st) = lateStatistics st
     \<and> sessionStorage_lateStatistics (settle p r st) = sessionStorage_lateStatistics st"
  by (cases "(p, r, st)" rule: settle.cases) (simp_all add: logFailure_def recordsFulfilled_def Let_def split: option.splits)

lemma settle_frame_ontime:
  "source_of r \<noteq> OnTimeStatistics \<Longrightarrow>
     onTimeStatistics (settle p r st) = onTimeStatistics st
     \<and> sessionStorage_onTimeStatistics (settle p r st) = sessionStorage_onTimeStatistics st"
  by (cases "(p, r, st)" rule: settle.cases) (simp_all add: logFailure_def recordsFulfilled_def Let_def split: option.splits)

lemma settle_frame_records:
  "source_of r \<noteq> Records \<Longrightarrow>
     attendanceRecords (settle p r st) = attendanceRecords st
     \<and> sessionStorage_attendanceRecords (settle p r st) = sessionStorage_attendanceRecords st"
  by (cases "(p, r, st)" rule: settle.cases) (simp_all add: logFailure_def)

lemma recordsFulfilled_published:
  "attendanceRecords (recordsFulfilled p recs st) = recs"
  "sessionStorage_attendanceRecords (recordsFulfilled p recs st)
     = (sessionStorage_attendanceRecords st)(attendanceCacheKey_of p \<mapsto> recs)"
  by (simp_all add: recordsFulfilled_def Let_def split: option.splits)

lemma settleAll_slots:
  "employeeData (settleAll p rs st) = employeeData (fold (settle p) rs st)"
  "localStorage_employeeData (settleAll p rs st) = localStorage_employeeData (fold (settle p) rs st)"
  "attendanceTrendData (settleAll p rs st) = attendanceTrendData (fold (settle p) rs st)"
  "sessionStorage_attendanceTrendData (settleAll p rs st)
     = sessionStorage_attendanceTrendData (fold (settle p) rs st)"
  "lateStatistics (settleAll p rs st) = lateStatistics (fold (settle p) rs st)"
  "sessionStorage_lateStatistics (settleAll p rs st) = sessionStorage_lateStatistics (fold (settle p) rs st)"
  "onTimeStatistics (settleAll p rs st) = onTimeStatistics (fold (settle p) rs st)"
  "sessionStorage_onTimeStatistics (settleAll p rs st)
     = sessionStorage_onTimeStatistics (fold (settle p) rs st)"
  "attendanceRecords (settleAll p rs st) = attendanceRecords (fold (settle p) rs st)"
  "sessionStorage_attendanceRecords (settleAll p rs st)
     = sessionStorage_attendanceRecords (fold (settle p) rs st)"
  by (simp_all add: settleAll_def)

lemma employees_settled:
  assumes "distinct (map source_of rs)"
  shows "EmployeesResponse Rejected \<in> set rs \<Longrightarrow>
           (employeeData (fold (settle p) rs st), localStorage_employeeData (fold (settle p) rs st))
             = (employeeData st, localStorage_employeeData st)"
    and "EmployeesResponse (Fulfilled es) \<in> set rs \<Longrightarrow>
           (employeeData (fold (settle p) rs st), localStorage_employeeData (fold (settle p) rs st))
             = (es, Some es)"
proof -
  assume r: "EmployeesResponse Rejected \<in> set rs"
  show "(employeeData (fold (settle p) rs st), localStorage_employeeData (fold (settle p) rs st))
             = (employeeData st, localStorage_employeeData st)"
    by (rule fold_settle_own
        [where g = "\<lambda>s. (employeeData s, localStorage_employeeData s)"
           and v = "\<lambda>s. (employeeData s, localStorage_employeeData s)", OF _ _ _ assms r])
       (simp_all add: settle_frame_employees logFailure_def)
next
  assume r: "EmployeesResponse (Fulfilled es) \<in> set rs"
  show "(employeeData (fold (settle p) rs st), localStorage_employeeData (fold (settle p) rs st))
             = (es, Some es)"
    by (rule fold_settle_own
        [where g = "\<lambda>s. (employeeData s, localStorage_employeeData s)"
           and v = "\<lambda>s. (es, Some es)", OF _ _ _ assms r])
       (simp_all add: settle_frame_employees)
qed

lemma trends_settled:
  assumes "distinct (map source_of rs)"
  shows "TrendsResponse Rejected \<in> set rs \<Longrightarrow>
           (attendanceTrendData (fold (settle p) rs st), sessionStorage_attendanceTrendData (fold (settle p) rs st))
             = (attendanceTrendData st, sessionStorage_attendanceTrendData st)"
    and "TrendsResponse (Fulfilled ts) \<in> set rs \<Longrightarrow>
           (attendanceTrendData (fold (settle p) rs st), sessionStorage_attendanceTrendData (fold (settle p) rs st))
             = (ts, Some ts)"
proof -
  assume r: "TrendsResponse Rejected \<in> set rs"
  show "(attendanceTrendData (fold (settle p) rs st), sessionStorage_attendanceTrendData (fold (settle p) rs st))
             = (attendanceTrendData st, sessionStorage_attendanceTrendData st)"
    by (rule fold_settle_own
        [where g = "\<lambda>s. (attendanceTrendData s, sessionStorage_attendanceTrendData s)"
           and v = "\<lambda>s. (attendanceTrendData s, sessionStorage_attendanceTrendData s)", OF _ _ _ assms r])
       (simp_all add: settle_frame_trends logFailure_def)
next
  assume r: "TrendsResponse (Fulfilled ts) \<in> set rs"
  show "(attendanceTrendData (fold (settle p) rs st), sessionStorage_attendanceTrendData (fold (settle p) rs st))
             = (ts, Some ts)"
    by (rule fold_settle_own
        [where g = "\<lambda>s. (attendanceTrendData s, sessionStorage_attendanceTrendData s)"
           and v = "\<lambda>s. (ts, Some ts)", OF _ _ _ assms r])
       (simp_all add: settle_frame_trends)
qed

lemma late_settled:
  assumes "distinct (map source_of rs)"
  shows "LateStatisticsResponse Rejected \<in> set rs \<Longrightarrow>
           (lateStatistics (fold (settle p) rs st), sessionStorage_lateStatistics (fold (settle p) rs st))
             = (lateStatistics st, sessionStorage_lateStatistics st)"
    and "LateStatisticsResponse (Fulfilled ls) \<in> set rs \<Longrightarrow>
           (lateStatistics (fold (settle p) rs st), sessionStorage_lateStatistics (fold (settle p) rs st))
             = (Some ls, Some ls)"
proof -
  assume r: "LateStatisticsResponse Rejected \<in> set rs"
  show "(lateStatistics (fold (settle p) rs st), sessionStorage_lateStatistics (fold (settle p) rs st))
             = (lateStatistics st, sessionStorage_lateStatistics st)"
    by (rule fold_settle_own
        [where g = "\<lambda>s. (lateStatistics s, sessionStorage_lateStatistics s)"
           and v = "\<lambda>s. (lateStatistics s, sessionStorage_lateStatistics s)", OF _ _ _ assms r])
       (simp_all add: settle_frame_late logFailure_def)
next
  assume r: "LateStatisticsResponse (Fulfilled ls) \<in> set rs"
  show "(lateStatistics (fold (settle p) rs st), sessionStorage_lateStatistics (fold (settle p) rs st))
             = (Some ls, Some ls)"
    by (rule fold_settle_own
        [where g = "\<lambda>s. (lateStatistics s, sessionStorage_lateStatistics s)"
           and v = "\<lambda>s. (Some ls, Some ls)", OF _ _ _ assms r])
       (simp_all add: settle_frame_late)
qed

lemma ontime_settled:
  assumes "distinct (map source_of rs)"
  shows "OnTimeStatisticsResponse Rejected \<in> set rs \<Longrightarrow>
           (onTimeStatistics (fold (settle p) rs st), sessionStorage_onTimeStatistics (fold (settle p) rs st))
             = (onTimeStatistics st, sessionStorage_onTimeStatistics st)"
    and "OnTimeStatisticsResponse (Fulfilled os) \<in> set rs \<Longrightarrow>
           (onTimeStatistics (fold (settle p) rs st), sessionStorage_onTimeStatistics (fold (settle p) rs st))
             = (Some os, Some os)"
proof -
  assume r: "OnTimeStatisticsResponse Rejected \<in> set rs"
  show "(onTimeStatistics (fold (settle p) rs st), sessionStorage_onTimeStatistics (fold (settle p) rs st))
             = (onTimeStatistics st, sessionStorage_onTimeStatistics st)"
    by (rule fold_settle_own
        [where g = "\<lambda>s. (onTimeStatistics s, sessionStorage_onTimeStatistics s)"
           and v = "\<lambda>s. (onTimeStatistics s, sessionStorage_onTimeStatistics s)", OF _ _ _ assms r])
       (simp_all add: settle_frame_ontime logFailure_def)
next
  assume r: "OnTimeStatisticsResponse (Fulfilled os) \<in> set rs"
  show "(onTimeStatistics (fold (settle p) rs st), sessionStorage_onTimeStatistics (fold (settle p) rs st))
             = (Some os, Some os)"
    by (rule fold_settle_own
        [where g = "\<lambda>s. (onTimeStatistics s, sessionStorage_onTimeStatistics s)"
           and v = "\<lambda>s. (Some os, Some os)", OF _ _ _ assms r])
       (simp_all add: settle_frame_ontime)
qed

lemma records_settled:
  assumes "distinct (map source_of rs)"
  shows "RecordsResponse Rejected \<in> set rs \<Longrightarrow>
           (attendanceRecords (fold (settle p) rs st), sessionStorage_attendanceRecords (fold (settle p) rs st))
             = (attendanceRecords st, sessionStorage_attendanceRecords st)"
    and "RecordsResponse (Fulfilled recs) \<in> set rs \<Longrightarrow>
           (attendanceRecords (fold (settle p) rs st), sessionStorage_attendanceRecords (fold (settle p) rs st))
             = (recs, (sessionStorage_attendanceRecords st)(attendanceCacheKey_of p \<mapsto> recs))"
proof -
  assume r: "RecordsResponse Rejected \<in> set rs"
  show "(attendanceRecords (fold (settle p) rs st), sessionStorage_attendanceRecords (fold (settle p) rs st))
             = (attendanceRecords st, sessionStorage_attendanceRecords st)"
    by (rule fold_settle_own
        [where g = "\<lambda>s. (attendanceRecords s, sessionStorage_attendanceRecords s)"
           and v = "\<lambda>s. (attendanceRecords s, sessionStorage_attendanceRecords s)", OF _ _ _ assms r])
       (simp_all add: settle_frame_records logFailure_def)
next
  assume r: "RecordsResponse (Fulfilled recs) \<in> set rs"
  have const: "\<And>r' st'. source_of r' \<noteq> Records \<Longrightarrow>
      sessionStorage_attendanceRecords (settle p r' st') = sessionStorage_attendanceRecords st'"
    by (simp add: settle_frame_records)
  show "(attendanceRecords (fold (settle p) rs st), sessionStorage_attendanceRecords (fold (settle p) rs st))
             = (recs, (sessionStorage_attendanceRecords st)(attendanceCacheKey_of p \<mapsto> recs))"
    by (rule fold_settle_own
        [where g = "\<lambda>s. (attendanceRecords s, sessionStorage_attendanceRecords s)"
           and v = "\<lambda>s. (recs, (sessionStorage_attendanceRecords s)(attendanceCacheKey_of p \<mapsto> recs))",
         OF _ _ _ assms r])
       (simp_all add: settle_frame_records recordsFulfilled_published const)
qed

lemma hydrateFixed_has:
  "snd (hydrateFixed st) =
     (localStorage_employeeData st \<noteq> None \<or> sessionStorage_attendanceTrendData st \<noteq> None
      \<or> sessionStorage_lateStatistics st \<noteq> None \<or> sessionStorage_onTimeStatistics st \<noteq> None)"
  by (cases "localStorage_employeeData st"; cases "sessionStorage_attendanceTrendData st";
      cases "sessionStorage_lateStatistics st"; cases "sessionStorage_onTimeStatistics st")
     (simp_all add: hydrateFixed_def)

lemma hydrateFixed_frame:
  "isLoading (fst (hydrateFixed st)) = isLoading st"
  "sessionStorage_attendanceRecords (fst (hydrateFixed st)) = sessionStorage_attendanceRecords st"
  "localStorage_employeeData (fst (hydrateFixed st)) = localStorage_employeeData st"
  by (cases "localStorage_employeeData st"; cases "sessionStorage_attendanceTrendData st";
      cases "sessionStorage_lateStatistics st"; cases "sessionStorage_onTimeStatistics st";
      simp add: hydrateFixed_def)+

lemma hydrateFixed_employees:
  "localStorage_employeeData st = Some es \<Longrightarrow> employeeData (fst (hydrateFixed st)) = es"
  by (cases "sessionStorage_attendanceTrendData st";
      cases "sessionStorage_lateStatistics st"; cases "sessionStorage_onTimeStatistics st")
     (simp_all add: hydrateFixed_def)

lemma hydrateRecords_has:
  "snd (hydrateRecords f key sh) = (snd sh \<or> sessionStorage_attendanceRecords (fst sh) key \<noteq> None)"
  by (cases sh; cases "sessionStorage_attendanceRecords (fst sh) key")
     (simp_all add: hydrateRecords_def Let_def)

lemma hydrateRecords_frame:
  "isLoading (fst (hydrateRecords f key sh)) = isLoading (fst sh)"
  "sessionStorage_attendanceRecords (fst (hydrateRecords f key sh))
     = sessionStorage_attendanceRecords (fst sh)"
  "employeeData (fst (hydrateRecords f key sh)) = employeeData (fst sh)"
  by (cases sh; cases "sessionStorage_attendanceRecords (fst sh) key";
      simp add: hydrateRecords_def Let_def split: option.splits)+

lemma hydrate_pass:
  "snd (hydrate st) =
     (case dateParam (filters st) of
        Inl e \<Rightarrow> Inl e
      | Inr dp \<Rightarrow>
          Inr \<lparr>pass_filters = filters st,
               attendanceCacheKey_of =
                 cacheKey dp (gender (filters st)) (department (filters st))
                   (attendanceStatus (filters st)) (travelMin (filters st)) (travelMax (filters st)),
               request_of = getAllAttendanceRecords dp (Some (gender (filters st)))
                              (travelMin (filters st)) (travelMax (filters st))\<rparr>)"
  by (simp add: hydrate_def Let_def split_beta split: sum.splits)

lemma hydrate_key: "map_sum id attendanceCacheKey_of (snd (hydrate st)) = attendanceCacheKey (filters st)"
  by (simp add: hydrate_pass attendanceCacheKey_def split: sum.splits)

lemma hydrate_request: "map_sum id request_of (snd (hydrate st)) = recordsRequest (filters st)"
  by (simp add: hydrate_pass recordsRequest_def split: sum.splits)

lemma hydrate_state:
  assumes "hydrate st0 = (st1, Inr p)"
  shows "isLoading st1 =
           (localStorage_employeeData st0 = None \<and> sessionStorage_attendanceTrendData st0 = None
            \<and> sessionStorage_lateStatistics st0 = None \<and> sessionStorage_onTimeStatistics st0 = None
            \<and> sessionStorage_attendanceRecords st0 (attendanceCacheKey_of p) = None)"
    and "sessionStorage_attendanceRecords st1 = sessionStorage_attendanceRecords st0"
    and "localStorage_employeeData st0 = Some es \<Longrightarrow> employeeData st1 = es"
proof -
  obtain dp where dp: "dateParam (filters st0) = Inr dp"
    using assms by (cases "dateParam (filters st0)") (simp_all add: hydrate_def Let_def split_beta)
  let ?key = "cacheKey dp (gender (filters st0)) (department (filters st0))
                   (attendanceStatus (filters st0)) (travelMin (filters st0)) (travelMax (filters st0))"
  let ?h = "hydrateFixed (st0\<lparr>isLoading := True\<rparr>)"
  let ?r = "hydrateRecords (filters st0) ?key ?h"
  have key: "attendanceCacheKey_of p = ?key"
    using assms dp by (auto simp add: hydrate_def Let_def split_beta)
  have st1: "st1 = (if snd ?r then (fst ?r)\<lparr>isLoading := False\<rparr> else fst ?r)"
    using assms dp by (auto simp add: hydrate_def Let_def split_beta)
  show "isLoading st1 =
           (localStorage_employeeData st0 = None \<and> sessionStorage_attendanceTrendData st0 = None
            \<and> sessionStorage_lateStatistics st0 = None \<and> sessionStorage_onTimeStatistics st0 = None
            \<and> sessionStorage_attendanceRecords st0 (attendanceCacheKey_of p) = None)"
    unfolding st1 key
    by (simp add: hydrateRecords_has hydrateRecords_frame hydrateFixed_has hydrateFixed_frame)
  show "sessionStorage_attendanceRecords st1 = sessionStorage_attendanceRecords st0"
    unfolding st1 by (simp add: hydrateRecords_frame hydrateFixed_frame)
  show "localStorage_employeeData st0 = Some es \<Longrightarrow> employeeData st1 = es"
    unfolding st1 by (simp add: hydrateRecords_frame hydrateFixed_employees)
qed

text \<open>
  C9. A rejected request only adds its two log lines to the console: every slot and
  every cache entry is as before. In a pass whose five requests settle in any order,
  one response per source: a source that failed leaves its live-state slot and its
  cache entry as they were when the requests were issued; a source that succeeded has
  its payload in its slot and in its cache entry, whatever happened to the others; and
  the loading flag is cleared at the end. When hydration finds any cache entry, the
  loading flag is already cleared when the requests are issued, and a cached roster is
  in the roster slot by then.
\<close>

theorem request_failures_are_isolated:
  assumes "distinct (map source_of rs)"
      and "hydrate st0 = (st1, Inr p0)"
  shows "(\<not> fulfilled r \<longrightarrow> (\<exists>m1 m2. settle p r st = st\<lparr>console := console st @ [m1, m2]\<rparr>))
       \<and> (EmployeesResponse Rejected \<in> set rs \<longrightarrow>
            employeeData (settleAll p rs st) = employeeData st
          \<and> localStorage_employeeData (settleAll p rs st) = localStorage_employeeData st)
       \<and> (TrendsResponse Rejected \<in> set rs \<longrightarrow>
            attendanceTrendData (settleAll p rs st) = attendanceTrendData st
          \<and> sessionStorage_attendanceTrendData (settleAll p rs st) = sessionStorage_attendanceTrendData st)
       \<and> (LateStatisticsResponse Rejected \<in> set rs \<longrightarrow>
            lateStatistics (settleAll p rs st) = lateStatistics st
          \<and> sessionStorage_lateStatistics (settleAll p rs st) = sessionStorage_lateStatistics st)
       \<and> (OnTimeStatisticsResponse Rejected \<in> set rs \<longrightarrow>
            onTimeStatistics (settleAll p rs st) = onTimeStatistics st
          \<and> sessionStorage_onTimeStatistics (settleAll p rs st) = sessionStorage_onTimeStatistics st)
       \<and> (RecordsResponse Rejected \<in> set rs \<longrightarrow>
            attendanceRecords (settleAll p rs st) = attendanceRecords st
          \<and> sessionStorage_attendanceRecords (settleAll p rs st) = sessionStorage_attendanceRecords st)
       \<and> (EmployeesResponse (Fulfilled es) \<in> set rs \<longrightarrow>
            employeeData (settleAll p rs st) = es
          \<and> localStorage_employeeData (settleAll p rs st) = Some es)
       \<and> (TrendsResponse (Fulfilled ts) \<in> set rs \<longrightarrow>
            attendanceTrendData (settleAll p rs st) = ts
          \<and> sessionStorage_attendanceTrendData (settleAll p rs st) = Some ts)
       \<and> (LateStatisticsResponse (Fulfilled ls) \<in> set rs \<longrightarrow>
            lateStatistics (settleAll p rs st) = Some ls
          \<and> sessionStorage_lateStatistics (settleAll p rs st) = Some ls)
       \<and> (OnTimeStatisticsResponse (Fulfilled os) \<in> set rs \<longrightarrow>
            onTimeStatistics (settleAll p rs st) = Some os
          \<and> sessionStorage_onTimeStatistics (settleAll p rs st) = Some os)
       \<and> (RecordsResponse (Fulfilled recs) \<in> set rs \<longrightarrow>
            attendanceRecords (settleAll p rs st) = recs
          \<and> sessionStorage_attendanceRecords (settleAll p rs st)
              = (sessionStorage_attendanceRecords st)(attendanceCacheKey_of p \<mapsto> recs))
       \<and> \<not> isLoading (settleAll p rs st)
       \<and> (localStorage_employeeData st0 \<noteq> None \<or> sessionStorage_attendanceTrendData st0 \<noteq> None
          \<or> sessionStorage_lateStatistics st0 \<noteq> None \<or> sessionStorage_onTimeStatistics st0 \<noteq> None
          \<or> sessionStorage_attendanceRecords st0 (attendanceCacheKey_of p0) \<noteq> None
          \<longrightarrow> \<not> isLoading st1)
       \<and> (localStorage_employeeData st0 = Some es0 \<longrightarrow> employeeData st1 = es0)"
proof -
  note d = assms(1)
  have c1: "\<not> fulfilled r \<longrightarrow> (\<exists>m1 m2. settle p r st = st\<lparr>console := console st @ [m1, m2]\<rparr>)"
    using settle_rejected by blast
  have e1: "EmployeesResponse Rejected \<in> set rs \<longrightarrow>
            employeeData (settleAll p rs st) = employeeData st
          \<and> localStorage_employeeData (settleAll p rs st) = localStorage_employeeData st"
    using employees_settled(1) [OF d, of p st] by (simp add: settleAll_slots)
  have t1: "TrendsResponse Rejected \<in> set rs \<longrightarrow>
            attendanceTrendData (settleAll p rs st) = attendanceTrendData st
          \<and> sessionStorage_attendanceTrendData (settleAll p rs st) = sessionStorage_attendanceTrendData st"
    using trends_settled(1) [OF d, of p st] by (simp add: settleAll_slots)
  have l1: "LateStatisticsResponse Rejected \<in> set rs \<longrightarrow>
            lateStatistics (settleAll p rs st) = lateStatistics st
          \<and> sessionStorage_lateStatistics (settleAll p rs st) = sessionStorage_lateStatistics st"
    using late_settled(1) [OF d, of p st] by (simp add: settleAll_slots)
  have o1: "OnTimeStatisticsResponse Rejected \<in> set rs \<longrightarrow>
            onTimeStatistics (settleAll p rs st) = onTimeStatistics st
          \<and> sessionStorage_onTimeStatistics (settleAll p rs st) = sessionStorage_onTimeStatistics st"
    using ontime_settled(1) [OF d, of p st] by (simp add: settleAll_slots)
  have r1: "RecordsResponse Rejected \<in> set rs \<longrightarrow>
            attendanceRecords (settleAll p rs st) = attendanceRecords st
          \<and> sessionStorage_attendanceRecords (settleAll p rs st) = sessionStorage_attendanceRecords st"
    using records_settled(1) [OF d, of p st] by (simp add: settleAll_slots)
  have e2: "EmployeesResponse (Fulfilled es) \<in> set rs \<longrightarrow>
            employeeData (settleAll p rs st) = es
          \<and> localStorage_employeeData (settleAll p rs st) = Some es"
    using employees_settled(2) [OF d, of es p st] by (simp add: settleAll_slots)
  have t2: "TrendsResponse (Fulfilled ts) \<in> set rs \<longrightarrow>
            attendanceTrendData (settleAll p rs st) = ts
          \<and> sessionStorage_attendanceTrendData (settleAll p rs st) = Some ts"
    using trends_settled(2) [OF d, of ts p st] by (simp add: settleAll_slots)
  have l2: "LateStatisticsResponse (Fulfilled ls) \<in> set rs \<longrightarrow>
            lateStatistics (settleAll p rs st) = Some ls
          \<and> sessionStorage_lateStatistics (settleAll p rs st) = Some ls"
    using late_settled(2) [OF d, of ls p st] by (simp add: settleAll_slots)
  have o2: "OnTimeStatisticsResponse (Fulfilled os) \<in> set rs \<longrightarrow>
            onTimeStatistics (settleAll p rs st) = Some os
          \<and> sessionStorage_onTimeStatistics (settleAll p rs st) = Some os"
    using ontime_settled(2) [OF d, of os p st] by (simp add: settleAll_slots)
  have r2: "RecordsResponse (Fulfilled recs) \<in> set rs \<longrightarrow>
            attendanceRecords (settleAll p rs st) = recs
          \<and> sessionStorage_attendanceRecords (settleAll p rs st)
              = (sessionStorage_attendanceRecords st)(attendanceCacheKey_of p \<mapsto> recs)"
    using records_settled(2) [OF d, of recs p st] by (simp add: settleAll_slots)
  have ld: "\<not> isLoading (settleAll p rs st)"
    by (simp add: settleAll_def)
  have h1: "localStorage_employeeData st0 \<noteq> None \<or> sessionStorage_attendanceTrendData st0 \<noteq> None
          \<or> sessionStorage_lateStatistics st0 \<noteq> None \<or> sessionStorage_onTimeStatistics st0 \<noteq> None
          \<or> sessionStorage_attendanceRecords st0 (attendanceCacheKey_of p0) \<noteq> None
          \<longrightarrow> \<not> isLoading st1"
    unfolding hydrate_state(1) [OF assms(2)] by blast
  have h2: "localStorage_employeeData st0 = Some es0 \<longrightarrow> employeeData st1 = es0"
    using hydrate_state(3) [OF assms(2)] by blast
  show ?thesis
    using c1 e1 t1 l1 o1 r1 e2 t2 l2 o2 r2 ld h1 h2 by (intro conjI)
qed

lemma hydrate_cachedRoster: "snd (hydrate cachedRoster) = Inr pass0"
  by (simp add: hydrate_pass cachedRoster_def dashboard0_def dateParam_def pass0_def
      travelMin_def travelMax_def)

theorem request_failures_are_isolated_witness:
  "(\<exists>m1 m2. settle pass0 (EmployeesResponse Rejected) (fst (hydrate cachedRoster))
       = (fst (hydrate cachedRoster))\<lparr>console := console (fst (hydrate cachedRoster)) @ [m1, m2]\<rparr>)
   \<and> employeeData (settleAll pass0 mixedResponses (fst (hydrate cachedRoster))) = [employee1]
   \<and> localStorage_employeeData (settleAll pass0 mixedResponses (fst (hydrate cachedRoster)))
       = localStorage_employeeData (fst (hydrate cachedRoster))
   \<and> lateStatistics (settleAll pass0 mixedResponses (fst (hydrate cachedRoster)))
       = lateStatistics (fst (hydrate cachedRoster))
   \<and> attendanceRecords (settleAll pass0 mixedResponses (fst (hydrate cachedRoster))) = [record1]
   \<and> sessionStorage_attendanceTrendData (settleAll pass0 mixedResponses (fst (hydrate cachedRoster)))
       = Some []
   \<and> \<not> isLoading (settleAll pass0 mixedResponses (fst (hydrate cachedRoster)))
   \<and> \<not> isLoading (fst (hydrate cachedRoster))"
proof -
  have d: "distinct (map source_of mixedResponses)" by (simp add: mixedResponses_def)
  have h: "hydrate cachedRoster = (fst (hydrate cachedRoster), Inr pass0)"
    using hydrate_cachedRoster by (cases "hydrate cachedRoster") simp
  have c: "localStorage_employeeData cachedRoster = Some [employee1]"
    by (simp add: cachedRoster_def)
  have m: "EmployeesResponse Rejected \<in> set mixedResponses"
    "LateStatisticsResponse Rejected \<in> set mixedResponses"
    "RecordsResponse (Fulfilled [record1]) \<in> set mixedResponses"
    "TrendsResponse (Fulfilled []) \<in> set mixedResponses"
    by (simp_all add: mixedResponses_def)
  have f: "\<not> fulfilled (EmployeesResponse Rejected)" by simp
  show ?thesis
    using request_failures_are_isolated [OF d h, of "EmployeesResponse Rejected" pass0
        "fst (hydrate cachedRoster)" "[]" "[]" "[]" "[]" "[record1]" "[employee1]"] c m f
    by simp
qed

section \<open>The cache key and the query of the records request\<close>

text \<open>
  C7. The cache key of the attendance records is a function of the date, the gender,
  the department, the attendance status and the two travel bounds: filter states that
  agree on these six give the same key (or both fail in \<^verbatim>\<open>format\<close>), and so do
  two runs of the effect from any two states of the component with such filters,
  whatever their slots, stores and flags hold.
\<close>

theorem cache_key_deterministic:
  assumes "date f1 = date f2" and "gender f1 = gender f2" and "department f1 = department f2"
      and "attendanceStatus f1 = attendanceStatus f2"
      and "travelMin f1 = travelMin f2" and "travelMax f1 = travelMax f2"
      and "filters st1 = f1" and "filters st2 = f2"
  shows "attendanceCacheKey f1 = attendanceCacheKey f2
       \<and> map_sum id attendanceCacheKey_of (snd (hydrate st1))
           = map_sum id attendanceCacheKey_of (snd (hydrate st2))"
proof -
  have dp: "dateParam f1 = dateParam f2"
    using assms(1) by (simp add: dateParam_def)
  have k: "attendanceCacheKey f1 = attendanceCacheKey f2"
    using assms(2-6) by (simp add: attendanceCacheKey_def dp split: sum.splits)
  show ?thesis using k assms(7,8) by (simp add: hydrate_key)
qed

theorem cache_key_deterministic_witness:
  "attendanceCacheKey scenario = attendanceCacheKey (scenario\<lparr>travelDistance := ''0-5-9''\<rparr>)
   \<and> map_sum id attendanceCacheKey_of (snd (hydrate (dashboard0\<lparr>filters := scenario\<rparr>)))
       = map_sum id attendanceCacheKey_of
           (snd (hydrate (cachedRoster\<lparr>filters := scenario\<lparr>travelDistance := ''0-5-9''\<rparr>,
                                       isInitialDateSynchronized := True\<rparr>)))"
proof -
  let ?g = "scenario\<lparr>travelDistance := ''0-5-9''\<rparr>"
  have a: "date scenario = date ?g" "gender scenario = gender ?g"
    "department scenario = department ?g" "attendanceStatus scenario = attendanceStatus ?g"
    by simp_all
  have mn: "travelMin scenario = travelMin ?g" by code_simp
  have mx: "travelMax scenario = travelMax ?g" by code_simp
  have s1: "filters (dashboard0\<lparr>filters := scenario\<rparr>) = scenario" by simp
  have s2: "filters (cachedRoster\<lparr>filters := ?g, isInitialDateSynchronized := True\<rparr>) = ?g"
    by simp
  show ?thesis by (rule cache_key_deterministic [OF a mn mx s1 s2])
qed

lemma scenario_pass:
  "snd (hydrate (st\<lparr>filters := scenario\<rparr>)) =
     Inr \<lparr>pass_filters = scenario,
          attendanceCacheKey_of = ''attendanceRecords_2024-03-01_Female_Engineering_all_any_5'',
          request_of = \<lparr>date_filter = Some ''2024-03-01'', gender_filter = Some ''Female'',
                        travelDistanceMin = Some (Num 0), travelDistanceMax = Some (Num 5)\<rparr>\<rparr>"
proof -
  have d: "dateParam scenario = Inr (Some ''2024-03-01'')" by code_simp
  have k: "cacheKey (Some ''2024-03-01'') (gender scenario) (department scenario)
             (attendanceStatus scenario) (travelMin scenario) (travelMax scenario)
           = ''attendanceRecords_2024-03-01_Female_Engineering_all_any_5''" by code_simp
  have r: "getAllAttendanceRecords (Some ''2024-03-01'') (Some (gender scenario))
             (travelMin scenario) (travelMax scenario)
           = \<lparr>date_filter = Some ''2024-03-01'', gender_filter = Some ''Female'',
                        travelDistanceMin = Some (Num 0), travelDistanceMax = Some (Num 5)\<rparr>"
    by code_simp
  show ?thesis by (simp add: hydrate_pass d k r)
qed

text \<open>
  C1. The end-to-end scenario, evaluated: the records request carries
  \<open>gender_filter = Female\<close>, \<open>travelDistanceMin = 0\<close>, \<open>travelDistanceMax = 5\<close>,
  \<open>date_filter = 2024-03-01\<close> and nothing about the attendance status. The cache
  key ends in \<open>_any_5\<close>, not in \<open>_0_5\<close>: the template prints
  \<^verbatim>\<open>travelMin || 'any'\<close> and the number \<open>0\<close> is falsy. The successful response is
  stored under that key, and no other entry of the session cache changes.
\<close>

theorem scenario_request_and_cache_key:
  "recordsRequest scenario =
     Inr \<lparr>date_filter = Some ''2024-03-01'', gender_filter = Some ''Female'',
          travelDistanceMin = Some (Num 0), travelDistanceMax = Some (Num 5)\<rparr>
   \<and> attendanceCacheKey scenario
       = Inr ''attendanceRecords_2024-03-01_Female_Engineering_all_any_5''
   \<and> attendanceCacheKey scenario
       \<noteq> Inr ''attendanceRecords_2024-03-01_Female_Engineering_all_0_5''
   \<and> sessionStorage_attendanceRecords
        (fst (fetchData (st\<lparr>filters := scenario\<rparr>) [RecordsResponse (Fulfilled allRecords)]))
       = (sessionStorage_attendanceRecords st)
           (''attendanceRecords_2024-03-01_Female_Engineering_all_any_5'' \<mapsto> allRecords)"
proof -
  let ?p = "\<lparr>pass_filters = scenario,
          attendanceCacheKey_of = ''attendanceRecords_2024-03-01_Female_Engineering_all_any_5'',
          request_of = \<lparr>date_filter = Some ''2024-03-01'', gender_filter = Some ''Female'',
                        travelDistanceMin = Some (Num 0), travelDistanceMax = Some (Num 5)\<rparr>\<rparr>"
  have a: "recordsRequest scenario =
     Inr \<lparr>date_filter = Some ''2024-03-01'', gender_filter = Some ''Female'',
          travelDistanceMin = Some (Num 0), travelDistanceMax = Some (Num 5)\<rparr>"
    by code_simp
  have b: "attendanceCacheKey scenario
       = Inr ''attendanceRecords_2024-03-01_Female_Engineering_all_any_5''"
    by code_simp
  have c: "attendanceCacheKey scenario
       \<noteq> Inr ''attendanceRecords_2024-03-01_Female_Engineering_all_0_5''"
    unfolding b by simp
  obtain st1 where h: "hydrate (st\<lparr>filters := scenario\<rparr>) = (st1, Inr ?p)"
    using scenario_pass [of st] by (cases "hydrate (st\<lparr>filters := scenario\<rparr>)") simp
  have s: "sessionStorage_attendanceRecords st1 = sessionStorage_attendanceRecords st"
    using hydrate_state(2) [OF h] by simp
  have d: "sessionStorage_attendanceRecords
        (fst (fetchData (st\<lparr>filters := scenario\<rparr>) [RecordsResponse (Fulfilled allRecords)]))
       = (sessionStorage_attendanceRecords st)
           (''attendanceRecords_2024-03-01_Female_Engineering_all_any_5'' \<mapsto> allRecords)"
    by (simp add: fetchData_def h settleAll_def recordsFulfilled_published s)
  from a b c d show ?thesis by (intro conjI)
qed

text \<open>
  C2. The query of the records request does not depend on the department and the
  attendance-status filters: \<^verbatim>\<open>getAllAttendanceRecords\<close> takes four parameters and
  builds the query from the date, the gender and the two travel bounds. With the
  department \<open>Engineering\<close> and the status \<open>Late\<close> selected, the query is the one of
  the scenario above, without either value.
\<close>

theorem department_and_status_not_in_request:
  "recordsRequest (f\<lparr>department := d, attendanceStatus := a\<rparr>) = recordsRequest f
   \<and> map_sum id request_of
       (snd (hydrate (st\<lparr>filters := (filters st)\<lparr>department := d, attendanceStatus := a\<rparr>\<rparr>)))
       = map_sum id request_of (snd (hydrate st))
   \<and> recordsRequest (scenario\<lparr>department := ''Engineering'', attendanceStatus := ''Late''\<rparr>)
       = Inr \<lparr>date_filter = Some ''2024-03-01'', gender_filter = Some ''Female'',
              travelDistanceMin = Some (Num 0), travelDistanceMax = Some (Num 5)\<rparr>"
proof -
  have a: "recordsRequest (f\<lparr>department := d, attendanceStatus := a\<rparr>) = recordsRequest f"
    for f d a
    by (simp add: recordsRequest_def dateParam_def travelMin_def travelMax_def split: sum.splits)
  have b: "recordsRequest scenario
       = Inr \<lparr>date_filter = Some ''2024-03-01'', gender_filter = Some ''Female'',
              travelDistanceMin = Some (Num 0), travelDistanceMax = Some (Num 5)\<rparr>"
    by code_simp
  show ?thesis by (simp add: hydrate_request a b)
qed

end
